theory Spec2Isabelle
  imports Complex_Main
begin

section \<open>Python values\<close>

text \<open>
  Python strings are modelled as \<^typ>\<open>string\<close>, one \<^typ>\<open>char\<close> per code point, so the
  model covers text whose code points are below 256.

  An exception that is an instance of \<open>Exception\<close> is a value of \<open>exn\<close>. An awaited call
  can also raise an exception outside that hierarchy (\<open>asyncio.CancelledError\<close>,
  \<open>KeyboardInterrupt\<close>), which a handler \<open>except Exception\<close> does not catch: \<open>raised\<close>
  tells the two apart.
\<close>

datatype exn = Exception string

datatype raised = Exc exn | BaseExc string

text \<open>
  A Python float that comes from outside (the similarity of a search result) can be any
  double, so it is modelled with the infinities and NaN. The operations follow IEEE 754 on
  the special values. A finite result is taken exactly, without rounding, unless it lies
  beyond the largest double, where it overflows to an infinity. Numbers that the source
  computes from counts and literals alone (token estimates, the simplicity factor) are
  finite and are modelled as \<^typ>\<open>real\<close>.
\<close>

datatype pyfloat = Fin real | PInf | NInf | NaN

definition max_double :: real where
  "max_double = 2 ^ 1024 - 2 ^ 971"

definition overflow :: "real \<Rightarrow> pyfloat" where
  "overflow x = (if x > max_double then PInf else if x < - max_double then NInf else Fin x)"

fun fadd :: "pyfloat \<Rightarrow> pyfloat \<Rightarrow> pyfloat" where
  "fadd NaN y = NaN"
| "fadd x NaN = NaN"
| "fadd (Fin a) (Fin b) = overflow (a + b)"
| "fadd PInf NInf = NaN"
| "fadd NInf PInf = NaN"
| "fadd PInf y = PInf"
| "fadd x PInf = PInf"
| "fadd NInf y = NInf"
| "fadd x NInf = NInf"

fun fmul_const :: "pyfloat \<Rightarrow> real \<Rightarrow> pyfloat" where
  \<comment> \<open>\<open>x * w\<close> for a finite literal \<open>w\<close>\<close>
  "fmul_const (Fin a) w = overflow (a * w)"
| "fmul_const PInf w = (if w > 0 then PInf else if w < 0 then NInf else NaN)"
| "fmul_const NInf w = (if w > 0 then NInf else if w < 0 then PInf else NaN)"
| "fmul_const NaN w = NaN"

fun fdiv_count :: "pyfloat \<Rightarrow> nat \<Rightarrow> pyfloat" where
  \<comment> \<open>\<open>x / n\<close> for a positive integer \<open>n\<close>\<close>
  "fdiv_count (Fin a) n = Fin (a / real n)"
| "fdiv_count x n = x"

fun flt :: "pyfloat \<Rightarrow> pyfloat \<Rightarrow> bool" where
  \<comment> \<open>\<open>x < y\<close>: false when either side is NaN\<close>
  "flt NaN y = False"
| "flt x NaN = False"
| "flt (Fin a) (Fin b) = (a < b)"
| "flt x NInf = False"
| "flt NInf y = True"
| "flt PInf y = False"
| "flt x PInf = True"

definition fgt :: "pyfloat \<Rightarrow> pyfloat \<Rightarrow> bool" where
  \<comment> \<open>\<open>x > y\<close>\<close>
  "fgt x y = flt y x"

definition py_max :: "pyfloat \<Rightarrow> pyfloat \<Rightarrow> pyfloat" where
  \<comment> \<open>\<open>max(x, y)\<close>: the first argument unless the second is greater\<close>
  "py_max x y = (if fgt y x then y else x)"

definition py_min :: "pyfloat \<Rightarrow> pyfloat \<Rightarrow> pyfloat" where
  \<comment> \<open>\<open>min(x, y)\<close>: the first argument unless the second is less\<close>
  "py_min x y = (if flt y x then y else x)"

definition fsum :: "pyfloat list \<Rightarrow> pyfloat" where
  \<comment> \<open>\<open>sum(xs)\<close>: from 0, left to right\<close>
  "fsum xs = foldl fadd (Fin 0) xs"

definition is_finite :: "pyfloat \<Rightarrow> bool" where
  \<comment> \<open>\<open>math.isfinite(x)\<close>\<close>
  "is_finite x = (case x of Fin a \<Rightarrow> True | _ \<Rightarrow> False)"

definition in_unit :: "pyfloat \<Rightarrow> bool" where
  \<comment> \<open>\<open>0 <= x <= 1\<close>\<close>
  "in_unit x = (case x of Fin a \<Rightarrow> 0 \<le> a \<and> a \<le> 1 | _ \<Rightarrow> False)"

definition isspace :: "char \<Rightarrow> bool" where
  \<comment> \<open>\<open>str.isspace\<close> and the regular expression class \<open>\s\<close> on code points below 256\<close>
  "isspace c \<longleftrightarrow> c \<in> set [CHR 0x09, CHR 0x0A, CHR 0x0B, CHR 0x0C, CHR 0x0D,
     CHR 0x1C, CHR 0x1D, CHR 0x1E, CHR 0x1F, CHR 0x20, CHR 0x85, CHR 0xA0]"

fun split_from :: "string \<Rightarrow> string \<Rightarrow> string list" where
  "split_from w [] = (if w = [] then [] else [w])"
| "split_from w (c # cs) =
     (if isspace c then (if w = [] then split_from [] cs else w # split_from [] cs)
      else split_from (w @ [c]) cs)"

definition str_split :: "string \<Rightarrow> string list" where
  \<comment> \<open>\<open>s.split()\<close>: the maximal runs of non-whitespace characters\<close>
  "str_split s = split_from [] s"

definition str_strip :: "string \<Rightarrow> string" where
  \<comment> \<open>\<open>s.strip()\<close>\<close>
  "str_strip s = rev (dropWhile isspace (rev (dropWhile isspace s)))"

fun str_join :: "string \<Rightarrow> string list \<Rightarrow> string" where
  \<comment> \<open>\<open>sep.join(parts)\<close>\<close>
  "str_join sep [] = []"
| "str_join sep [x] = x"
| "str_join sep (x # y # ys) = x @ sep @ str_join sep (y # ys)"

definition NL :: string where
  "NL = [CHR 0x0A]"

section \<open>Search results and the retrieval context\<close>

record SearchResult =
  chunk_id :: "int option"
  doc_id :: "string option"
  content :: string
  similarity :: pyfloat
  metadata :: "string \<rightharpoonup> string"
  source :: string
  chunk_type :: "string option"

record RAGContext =
  query :: string
  retrieved_chunks :: "SearchResult list"
  context_text :: string
  source_count :: nat
  confidence_score :: pyfloat
  processing_time :: real
  context_sources :: "string list"
  token_count :: int

text \<open>
  The pipeline object: its collaborators and its configuration. The training-data service,
  the vector search service and the clock are reached through their interfaces; each call
  takes the state of the outside world \<open>'w\<close> and returns the new one, and a collaborator
  that raises returns \<open>Inl\<close>. The two search entry points stand for any implementation
  of the service, so their results and failures are unconstrained. The assembly and the
  scoring of the pipeline itself are total on these types. \<open>format_2f\<close> is Python's
  \<open>format(x, '.2f')\<close>, and \<open>sorted_nan\<close> is Python's
  \<open>sorted(results, key=similarity, reverse=True)\<close> on a list in which a similarity is
  NaN, where the order depends on the sorting algorithm.
\<close>

record 'w RAGPipeline =
  get_training_context ::
    "string \<Rightarrow> string option \<Rightarrow> string option \<Rightarrow> 'w \<Rightarrow> (raised + string) \<times> 'w"
  hybrid_search ::
    "string \<Rightarrow> string option \<Rightarrow> string option \<Rightarrow> int \<Rightarrow> real \<Rightarrow> real \<Rightarrow> 'w
      \<Rightarrow> (raised + SearchResult list) \<times> 'w"
  semantic_search ::
    "string \<Rightarrow> string option \<Rightarrow> string option \<Rightarrow> int \<Rightarrow> real \<Rightarrow> 'w
      \<Rightarrow> (raised + SearchResult list) \<times> 'w"
  now :: "'w \<Rightarrow> real"
  format_2f :: "pyfloat \<Rightarrow> string"
  sorted_nan :: "SearchResult list \<Rightarrow> SearchResult list"
  max_context_tokens :: int

subsection \<open>\<open>RAGPipeline._format_source_info\<close> and \<open>RAGPipeline._truncate_content\<close>\<close>

definition format_source_info :: "(pyfloat \<Rightarrow> string) \<Rightarrow> SearchResult \<Rightarrow> string" where
  "format_source_info fmt result =
     (let source_parts = [''Source: '' @ source result];
          source_parts =
            (if metadata result \<noteq> Map.empty then
               (let filename = (case metadata result ''filename'' of
                                  Some f \<Rightarrow> Some f
                                | None \<Rightarrow> metadata result ''original_filename'');
                    source_parts = (case filename of
                                      Some f \<Rightarrow> if f \<noteq> [] then source_parts @ [''Document: '' @ f]
                                                else source_parts
                                    | None \<Rightarrow> source_parts)
                in (case metadata result ''chunk_type'' of
                      Some t \<Rightarrow> if t \<noteq> [] then source_parts @ [''Type: '' @ t] else source_parts
                    | None \<Rightarrow> source_parts))
             else source_parts);
          source_parts = source_parts @ [''Relevance: '' @ fmt (similarity result)]
      in ''['' @ str_join '' | '' source_parts @ '']'')"

definition truncate_content :: "string \<Rightarrow> nat \<Rightarrow> string" where
  "truncate_content cont max_words =
     (let words = str_split cont
      in if length words \<le> max_words then cont
         else str_join '' '' (take max_words words) @ ''... [truncated]'')"

subsection \<open>\<open>RAGPipeline._build_comprehensive_context\<close>\<close>

text \<open>
  The loop over the sorted results carries \<open>current_tokens\<close> and \<open>vector_content\<close>; both
  \<open>break\<close> statements end it.
\<close>

fun add_search_results ::
  "(pyfloat \<Rightarrow> string) \<Rightarrow> real \<Rightarrow> SearchResult list \<Rightarrow> real \<Rightarrow> string list
    \<Rightarrow> real \<times> string list"
where
  "add_search_results fmt max_tokens [] current_tokens vector_content =
     (current_tokens, vector_content)"
| "add_search_results fmt max_tokens (result # results) current_tokens vector_content =
     (if current_tokens \<ge> max_tokens * (9 / 10) then (current_tokens, vector_content)
      else
        (let source_info = format_source_info fmt result;
             content_block = source_info @ NL @ content result;
             content_tokens = real (length (str_split content_block)) * (13 / 10)
         in if current_tokens + content_tokens \<le> max_tokens
            then add_search_results fmt max_tokens results
                   (current_tokens + content_tokens) (vector_content @ [content_block])
            else
              (let remaining_tokens = max_tokens - current_tokens
               in if remaining_tokens > 50
                  then (current_tokens,
                        vector_content @
                          [truncate_content content_block (nat \<lfloor>remaining_tokens / (13 / 10)\<rfloor>)])
                  else (current_tokens, vector_content))))"

text \<open>
  \<open>sorted(search_results, key=lambda x: x.similarity, reverse=True)\<close>: the stable sort in
  descending order when no similarity is NaN.
\<close>

fun insert_desc :: "SearchResult \<Rightarrow> SearchResult list \<Rightarrow> SearchResult list" where
  "insert_desc x [] = [x]"
| "insert_desc x (y # ys) =
     (if fgt (similarity y) (similarity x) then y # insert_desc x ys else x # y # ys)"

definition sorted_desc ::
  "(SearchResult list \<Rightarrow> SearchResult list) \<Rightarrow> SearchResult list \<Rightarrow> SearchResult list"
where
  "sorted_desc srt_nan results =
     (if list_ex (\<lambda>r. similarity r = NaN) results then srt_nan results
      else foldr insert_desc results [])"

definition build_comprehensive_context ::
  "(pyfloat \<Rightarrow> string) \<Rightarrow> (SearchResult list \<Rightarrow> SearchResult list) \<Rightarrow> string \<Rightarrow> string
    \<Rightarrow> SearchResult list \<Rightarrow> int \<Rightarrow> string"
where
  "build_comprehensive_context fmt srt_nan qry training_context search_results max_tokens =
     (let training_section = ''EXACT TRAINING DATA:'' @ NL @ training_context;
          training_tokens = real (length (str_split training_section)) * (13 / 10);
          training_fits = (training_context \<noteq> [] \<and> 0 + training_tokens \<le> real_of_int max_tokens);
          context_parts = (if training_fits then [training_section] else []);
          current_tokens = (if training_fits then 0 + training_tokens else 0);
          context_parts =
            (if search_results \<noteq> [] \<and> current_tokens < real_of_int max_tokens * (8 / 10) then
               (let sorted_results = sorted_desc srt_nan search_results;
                    vector_content =
                      snd (add_search_results fmt (real_of_int max_tokens) sorted_results
                             current_tokens [])
                in if vector_content \<noteq> []
                   then context_parts @
                          [''SEMANTIC SEARCH RESULTS:'' @ NL @ str_join (NL @ NL) vector_content]
                   else context_parts)
             else context_parts)
      in str_join (NL @ NL @ ''=== CONTEXT SEPARATOR ==='' @ NL @ NL) context_parts)"

subsection \<open>\<open>RAGPipeline._calculate_confidence\<close>\<close>

definition weights :: "real list" where
  "weights = [4 / 10, 3 / 10, 2 / 10, 1 / 10]"

definition calculate_confidence :: "string \<Rightarrow> SearchResult list \<Rightarrow> string \<Rightarrow> pyfloat" where
  "calculate_confidence training_context search_results qry =
     (let confidence_factors = (if training_context \<noteq> [] then [Fin (9 / 10)] else []);
          confidence_factors =
            (if search_results \<noteq> [] then
               (let top_results = take 5 search_results;
                    avg_similarity =
                      fdiv_count (fsum (map similarity top_results)) (length top_results);
                    high_quality_count =
                      length (filter (\<lambda>r. fgt (similarity r) (Fin (8 / 10))) search_results);
                    diversity_bonus = Fin (min (real high_quality_count / 10) (2 / 10))
                in confidence_factors @ [avg_similarity, diversity_bonus])
             else confidence_factors);
          query_complexity = min (real (length (str_split qry)) / 10) 1;
          simplicity_factor = Fin (1 - query_complexity * (3 / 10));
          confidence_factors = confidence_factors @ [simplicity_factor]
      in if confidence_factors = [] then Fin 0
         else
           (let confidence_factors =
                  confidence_factors
                    @ replicate (length weights - length confidence_factors) (Fin 0);
                confidence_factors = take (length weights) confidence_factors;
                weighted_confidence =
                  fsum (map (\<lambda>(f, w). fmul_const f w) (zip confidence_factors weights))
            in py_min (py_max weighted_confidence (Fin 0)) (Fin 1)))"

subsection \<open>\<open>RAGPipeline.retrieve_context\<close>\<close>

text \<open>
  The body of the \<open>try\<close> block: \<open>Inl\<close> when a collaborator raised, with the world as it was
  when the exception left the block.
\<close>

definition retrieve_context_body ::
  "'w RAGPipeline \<Rightarrow> string \<Rightarrow> string option \<Rightarrow> string option \<Rightarrow> bool \<Rightarrow> int \<Rightarrow> 'w
    \<Rightarrow> (raised + RAGContext) \<times> 'w"
where
  "retrieve_context_body self qry assistant_key tenant_id use_hybrid_search max_chunks w =
     (case get_training_context self qry assistant_key tenant_id w of
        (Inl e, w1) \<Rightarrow> (Inl e, w1)
      | (Inr training_context, w1) \<Rightarrow>
          (let context_sources = (if training_context \<noteq> [] then [''training_data''] else []);
               search =
                 (if use_hybrid_search
                  then (hybrid_search self qry assistant_key tenant_id max_chunks (7 / 10) (3 / 10) w1,
                        ''hybrid'')
                  else (semantic_search self qry assistant_key tenant_id max_chunks (6 / 10) w1,
                        ''vector''))
           in (case search of
                 ((Inl e, w2), search_method) \<Rightarrow> (Inl e, w2)
               | ((Inr vector_results, w2), search_method) \<Rightarrow>
                   (let all_results = [] @ vector_results;
                        context_sources =
                          (if vector_results \<noteq> [] then context_sources @ [search_method]
                           else context_sources);
                        context_text =
                          build_comprehensive_context (format_2f self) (sorted_nan self) qry
                            training_context all_results (max_context_tokens self);
                        confidence_score = calculate_confidence training_context all_results qry;
                        processing_time = now self w2 - now self w;
                        token_count = real (length (str_split context_text)) * (13 / 10)
                    in (Inr \<lparr>query = qry,
                             retrieved_chunks = all_results,
                             context_text = context_text,
                             source_count = length all_results,
                             confidence_score = confidence_score,
                             processing_time = processing_time,
                             context_sources = context_sources,
                             token_count = \<lfloor>token_count\<rfloor>\<rparr>, w2)))))"

text \<open>
  Both handlers are \<open>except Exception\<close>: an exception outside that hierarchy leaves
  \<open>retrieve_context\<close>, from the \<open>try\<close> block as from the fallback call.
\<close>

definition retrieve_context ::
  "'w RAGPipeline \<Rightarrow> string \<Rightarrow> string option \<Rightarrow> string option \<Rightarrow> bool \<Rightarrow> int \<Rightarrow> 'w
    \<Rightarrow> (raised + RAGContext) \<times> 'w"
where
  "retrieve_context self qry assistant_key tenant_id use_hybrid_search max_chunks w =
     (case retrieve_context_body self qry assistant_key tenant_id use_hybrid_search max_chunks w of
        (Inr rag_context, w') \<Rightarrow> (Inr rag_context, w')
      | (Inl (BaseExc b), w') \<Rightarrow> (Inl (BaseExc b), w')
      | (Inl (Exc e), w') \<Rightarrow>
          (let processing_time = now self w' - now self w
           in (case get_training_context self qry assistant_key tenant_id w' of
                 (Inr fallback_context, w'') \<Rightarrow>
                   (Inr \<lparr>query = qry,
                         retrieved_chunks = [],
                         context_text = fallback_context,
                         source_count = 0,
                         confidence_score =
                           (if fallback_context \<noteq> [] then Fin (5 / 10) else Fin (1 / 10)),
                         processing_time = processing_time,
                         context_sources =
                           (if fallback_context \<noteq> [] then [''training_data_fallback''] else []),
                         token_count =
                           (if fallback_context \<noteq> []
                            then int (length (str_split fallback_context)) else 0)\<rparr>, w'')
               | (Inl (BaseExc b), w'') \<Rightarrow> (Inl (BaseExc b), w'')
               | (Inl (Exc fallback_error), w'') \<Rightarrow>
                   (Inr \<lparr>query = qry,
                         retrieved_chunks = [],
                         context_text = [],
                         source_count = 0,
                         confidence_score = Fin 0,
                         processing_time = processing_time,
                         context_sources = [],
                         token_count = 0\<rparr>, w''))))"

subsection \<open>The confidence score as the specification words it\<close>

text \<open>
  The specification describes four fixed slots (exact match, average similarity of the top
  five, diversity bonus, query simplicity), each factor clamped to the unit interval, with
  the weights 0.4, 0.3, 0.2 and 0.1, a missing factor counting 0 in its own slot. This definition follows those words; it is compared with
  \<open>calculate_confidence\<close>, which follows the source.
\<close>

definition clamp_unit :: "pyfloat \<Rightarrow> pyfloat" where
  "clamp_unit x = py_min (py_max x (Fin 0)) (Fin 1)"

definition four_slot_confidence :: "string \<Rightarrow> SearchResult list \<Rightarrow> string \<Rightarrow> pyfloat" where
  "four_slot_confidence training_context search_results qry =
     (let exact_match = (if training_context \<noteq> [] then Fin (9 / 10) else Fin 0);
          top = take 5 search_results;
          avg_similarity = (if search_results = [] then Fin 0
                            else fdiv_count (fsum (map similarity top)) (length top));
          diversity =
            (if search_results = [] then Fin 0
             else Fin (min (real (length (filter (\<lambda>r. fgt (similarity r) (Fin (8 / 10)))
                                           search_results)) / 10) (2 / 10)));
          simplicity = Fin (1 - min (real (length (str_split qry)) / 10) 1 * (3 / 10))
      in clamp_unit (fsum [fmul_const (clamp_unit exact_match) (4 / 10),
                           fmul_const (clamp_unit avg_similarity) (3 / 10),
                           fmul_const (clamp_unit diversity) (2 / 10),
                           fmul_const (clamp_unit simplicity) (1 / 10)]))"

subsection \<open>Pipelines over concrete collaborators\<close>

text \<open>
  In each of them the clock stands still, \<open>format_2f\<close> prints \<open>0.90\<close> and a list with a NaN
  similarity is left in its order.
\<close>

text \<open>A deployment with an empty corpus and no training data.\<close>

definition no_data_pipeline :: "unit RAGPipeline" where
  "no_data_pipeline =
     \<lparr>get_training_context = (\<lambda>q a t w. (Inr [], w)),
      hybrid_search = (\<lambda>q a t l vw kw w. (Inr [], w)),
      semantic_search = (\<lambda>q a t l th w. (Inr [], w)),
      now = (\<lambda>w. 0),
      format_2f = (\<lambda>x. ''0.90''),
      sorted_nan = (\<lambda>rs. rs),
      max_context_tokens = 3000\<rparr>"




subsection \<open>Inputs of the context assembler\<close>

text \<open>A curated answer of 2400 words, and one retrieved passage.\<close>

definition oversized_training_context :: string where
  "oversized_training_context = concat (replicate 2400 ''a '')"

definition manual_result :: SearchResult where
  "manual_result =
     \<lparr>chunk_id = Some 1, doc_id = Some ''d1'', content = ''doc'', similarity = Fin (9 / 10),
      metadata = Map.empty, source = ''hybrid_search'', chunk_type = None\<rparr>"

text \<open>
  A deployment that holds the curated answer of 2400 words and one document chunk, and one
  that holds no training data and whose only chunk comes back with the similarity NaN.
\<close>

definition oversized_pipeline :: "unit RAGPipeline" where
  "oversized_pipeline =
     \<lparr>get_training_context = (\<lambda>q a t w. (Inr oversized_training_context, w)),
      hybrid_search = (\<lambda>q a t l vw kw w. (Inr [manual_result], w)),
      semantic_search = (\<lambda>q a t l th w. (Inr [manual_result], w)),
      now = (\<lambda>w. 0),
      format_2f = (\<lambda>x. ''0.90''),
      sorted_nan = (\<lambda>rs. rs),
      max_context_tokens = 3000\<rparr>"

definition nan_pipeline :: "unit RAGPipeline" where
  "nan_pipeline =
     \<lparr>get_training_context = (\<lambda>q a t w. (Inr [], w)),
      hybrid_search = (\<lambda>q a t l vw kw w. (Inr [manual_result\<lparr>similarity := NaN\<rparr>], w)),
      semantic_search = (\<lambda>q a t l th w. (Inr [manual_result\<lparr>similarity := NaN\<rparr>], w)),
      now = (\<lambda>w. 0),
      format_2f = (\<lambda>x. ''nan''),
      sorted_nan = (\<lambda>rs. rs),
      max_context_tokens = 3000\<rparr>"

section \<open>The vector search service\<close>

definition char_lower :: "char \<Rightarrow> char" where
  \<comment> \<open>\<open>str.lower\<close> on one code point below 256: the ASCII capitals and the Latin-1 capitals\<close>
  "char_lower c =
     (let n = (of_char c :: nat)
      in if (65 \<le> n \<and> n \<le> 90) \<or> (192 \<le> n \<and> n \<le> 222 \<and> n \<noteq> 215)
         then char_of (n + 32) else c)"

definition str_lower :: "string \<Rightarrow> string" where
  "str_lower s = map char_lower s"

fun count_scan :: "string \<Rightarrow> nat \<Rightarrow> string \<Rightarrow> nat" where
  \<comment> \<open>occurrences of \<open>sub\<close> from left to right; \<open>skip\<close> characters belong to the last match\<close>
  "count_scan sub skip [] = 0"
| "count_scan sub skip (c # cs) =
     (if skip > 0 then count_scan sub (skip - 1) cs
      else if take (length sub) (c # cs) = sub then 1 + count_scan sub (length sub - 1) cs
      else count_scan sub 0 cs)"

definition str_count :: "string \<Rightarrow> string \<Rightarrow> nat" where
  \<comment> \<open>\<open>s.count(sub)\<close>: non-overlapping occurrences; the empty string occurs \<open>len(s) + 1\<close> times\<close>
  "str_count s sub = (if sub = [] then length s + 1 else count_scan sub 0 s)"

subsection \<open>\<open>VectorSearchService._keyword_search\<close>\<close>

text \<open>
  A row of \<open>document_chunks\<close> as the store returns it: a dictionary in which each of the
  selected columns may be absent. The store is reached through \<open>document_chunks_ilike\<close>,
  the query built by \<open>_keyword_search\<close>: the tenant filter when a tenant is given, the
  \<open>ilike\<close> pattern and the limit.
\<close>

record item =
  item_chunk_id :: "int option"
  item_doc_id :: "string option"
  item_chunk_text :: "string option"
  item_metadata :: "(string \<rightharpoonup> string) option"

record 'w VectorSearchService =
  document_chunks_ilike ::
    "string option \<Rightarrow> string \<Rightarrow> int \<Rightarrow> 'w \<Rightarrow> (exn + item list) \<times> 'w"

definition truthy :: "string option \<Rightarrow> bool" where
  \<comment> \<open>\<open>if s:\<close> for an optional string: neither \<open>None\<close> nor empty\<close>
  "truthy s = (case s of None \<Rightarrow> False | Some v \<Rightarrow> v \<noteq> [])"

fun keyword_results :: "string \<Rightarrow> string option \<Rightarrow> item list \<Rightarrow> SearchResult list" where
  "keyword_results qry assistant_key [] = []"
| "keyword_results qry assistant_key (it # items) =
     (let cont = (case item_chunk_text it of Some t \<Rightarrow> t | None \<Rightarrow> []);
          query_lower = str_lower qry;
          content_lower = str_lower cont;
          keyword_count = str_count content_lower query_lower;
          relevance = Fin (min (real keyword_count / 10) 1);
          md = (case item_metadata it of Some m \<Rightarrow> m | None \<Rightarrow> Map.empty)
      in if truthy assistant_key \<and> md ''assistant_key'' \<noteq> assistant_key
         then keyword_results qry assistant_key items
         else \<lparr>chunk_id = item_chunk_id it,
               doc_id = item_doc_id it,
               content = cont,
               similarity = relevance,
               metadata = md,
               source = ''keyword_search'',
               chunk_type = None\<rparr> # keyword_results qry assistant_key items)"

definition keyword_search ::
  "'w VectorSearchService \<Rightarrow> string \<Rightarrow> string option \<Rightarrow> string option \<Rightarrow> int \<Rightarrow> 'w
    \<Rightarrow> SearchResult list \<times> 'w"
where
  "keyword_search self qry assistant_key tenant_id limit w =
     (case document_chunks_ilike self (if truthy tenant_id then tenant_id else None)
             (''%'' @ qry @ ''%'') limit w of
        (Inl e, w') \<Rightarrow> ([], w')
      | (Inr data, w') \<Rightarrow>
          (if data = [] then ([], w') else (keyword_results qry assistant_key data, w')))"

text \<open>A store holding one chunk that repeats the word \<open>refund\<close> six times.\<close>

definition refund_item :: item where
  "refund_item =
     \<lparr>item_chunk_id = Some 7, item_doc_id = Some ''d1'',
      item_chunk_text = Some ''Refund refund refund: refund, refund or refund.'',
      item_metadata = Some Map.empty\<rparr>"

definition refund_store :: "unit VectorSearchService" where
  "refund_store = \<lparr>document_chunks_ilike = (\<lambda>tenant pattern limit w. (Inr [refund_item], w))\<rparr>"

section \<open>The embedding service\<close>

text \<open>
  The service object holds the cache and its counters. Python's \<open>hash\<close> and the embedding
  backend (\<open>client.embeddings.create\<close>, which answers with a list of vectors or raises)
  are reached through \<open>py_hash\<close> and \<open>embeddings_create\<close>. \<open>asyncio_sleep\<close> is
  \<open>asyncio.sleep(0.1)\<close>, which returns or is cancelled: it gives the name of the exception
  raised, which is outside the \<open>Exception\<close> hierarchy. \<open>dimensions\<close> and \<open>max_batch_size\<close>
  are the constants set by the constructor. The texts are strings, so the outer handler of
  \<open>_process_batch\<close>, around code that cannot raise on strings, is never entered.
\<close>

definition dimensions :: nat where
  "dimensions = 1536"

definition max_batch_size :: int where
  "max_batch_size = 100"

definition zero_vector :: "real list" where
  \<comment> \<open>\<open>[0.0] * self.dimensions\<close>\<close>
  "zero_vector = replicate dimensions 0"

record 'w EmbeddingService =
  py_hash :: "string \<Rightarrow> int"
  embeddings_create :: "string list \<Rightarrow> 'w \<Rightarrow> (raised + real list list) \<times> 'w"
  asyncio_sleep :: "'w \<Rightarrow> string option \<times> 'w"
  embedding_cache :: "int \<rightharpoonup> real list"
  cache_hits :: nat
  cache_misses :: nat

subsection \<open>\<open>EmbeddingService._process_batch\<close>\<close>

text \<open>The loop that looks each valid text up in the cache.\<close>

fun check_cache ::
  "'w EmbeddingService \<Rightarrow> string list \<Rightarrow> (string \<rightharpoonup> real list) \<Rightarrow> string list
    \<Rightarrow> (string \<rightharpoonup> real list) \<times> string list \<times> 'w EmbeddingService"
where
  "check_cache self [] cached_embeddings uncached_texts =
     (cached_embeddings, uncached_texts, self)"
| "check_cache self (t # texts) cached_embeddings uncached_texts =
     (let text_hash = py_hash self t
      in case embedding_cache self text_hash of
           Some e \<Rightarrow>
             check_cache (self\<lparr>cache_hits := cache_hits self + 1\<rparr>) texts
               (cached_embeddings(t \<mapsto> e)) uncached_texts
         | None \<Rightarrow> check_cache self texts cached_embeddings (uncached_texts @ [t]))"

text \<open>The loop over \<open>zip(uncached_texts, response.data)\<close>.\<close>

fun store_new ::
  "'w EmbeddingService \<Rightarrow> (string \<times> real list) list \<Rightarrow> (string \<rightharpoonup> real list)
    \<Rightarrow> (string \<rightharpoonup> real list) \<times> 'w EmbeddingService"
where
  "store_new self [] new_embeddings = (new_embeddings, self)"
| "store_new self ((t, embedding) # rest) new_embeddings =
     store_new
       (self\<lparr>embedding_cache := (embedding_cache self)(py_hash self t \<mapsto> embedding),
              cache_misses := cache_misses self + 1\<rparr>)
       rest (new_embeddings(t \<mapsto> embedding))"

text \<open>The loop of the inner handler, which gives every uncached text the zero vector.\<close>

fun fill_zero :: "string list \<Rightarrow> (string \<rightharpoonup> real list) \<Rightarrow> (string \<rightharpoonup> real list)" where
  "fill_zero [] new_embeddings = new_embeddings"
| "fill_zero (t # texts) new_embeddings = fill_zero texts (new_embeddings(t \<mapsto> zero_vector))"

definition combine ::
  "(string \<rightharpoonup> real list) \<Rightarrow> (string \<rightharpoonup> real list) \<Rightarrow> string \<Rightarrow> real list"
where
  \<comment> \<open>one step of the last loop: the vector appended for \<open>original_text\<close>\<close>
  "combine cached_embeddings new_embeddings original_text =
     (let t = (if original_text \<noteq> [] then str_strip original_text else [])
      in case cached_embeddings t of
           Some e \<Rightarrow> e
         | None \<Rightarrow> (case new_embeddings t of Some e \<Rightarrow> e | None \<Rightarrow> zero_vector))"

text \<open>
  The inner handler is \<open>except Exception\<close>, and so is the outer one: an exception outside
  that hierarchy raised by the awaited backend call leaves \<open>_process_batch\<close>.
\<close>

definition process_batch ::
  "'w EmbeddingService \<Rightarrow> string list \<Rightarrow> 'w
    \<Rightarrow> (raised + real list list) \<times> 'w EmbeddingService \<times> 'w"
where
  "process_batch self batch w =
     (let valid_texts = map str_strip (filter (\<lambda>t. t \<noteq> [] \<and> str_strip t \<noteq> []) batch)
      in if valid_texts = [] then (Inr (replicate (length batch) zero_vector), self, w)
         else
           (case check_cache self valid_texts Map.empty [] of
              (cached_embeddings, uncached_texts, self1) \<Rightarrow>
                (if uncached_texts \<noteq> [] then
                   (case embeddings_create self1 uncached_texts w of
                      (Inr data, w') \<Rightarrow>
                        (case store_new self1 (zip uncached_texts data) Map.empty of
                           (new_embeddings, self2) \<Rightarrow>
                             (Inr (map (combine cached_embeddings new_embeddings) batch),
                              self2, w'))
                    | (Inl (Exc e), w') \<Rightarrow>
                        (Inr (map (combine cached_embeddings (fill_zero uncached_texts Map.empty))
                                batch),
                         self1, w')
                    | (Inl (BaseExc b), w') \<Rightarrow> (Inl (BaseExc b), self1, w'))
                 else (Inr (map (combine cached_embeddings Map.empty) batch), self1, w))))"

subsection \<open>\<open>EmbeddingService.generate_batch_embeddings\<close>\<close>

text \<open>
  The loop over \<open>range(0, len(texts), batch_size)\<close> for a positive step: each round takes
  the next \<open>batch_size\<close> texts, and sleeps when more texts follow. The step 0 is never
  passed on by the caller below. Nothing is caught here.
\<close>

function batches ::
  "'w EmbeddingService \<Rightarrow> nat \<Rightarrow> string list \<Rightarrow> 'w
    \<Rightarrow> (raised + real list list) \<times> 'w EmbeddingService \<times> 'w"
where
  "batches self batch_size texts w =
     (if texts = [] \<or> batch_size = 0 then (Inr [], self, w)
      else
        (case process_batch self (take batch_size texts) w of
           (Inl e, self1, w1) \<Rightarrow> (Inl e, self1, w1)
         | (Inr batch_embeddings, self1, w1) \<Rightarrow>
             (case (if drop batch_size texts \<noteq> [] then asyncio_sleep self1 w1 else (None, w1)) of
                (Some b, w2) \<Rightarrow> (Inl (BaseExc b), self1, w2)
              | (None, w2) \<Rightarrow>
                  (case batches self1 batch_size (drop batch_size texts) w2 of
                     (Inl e, self2, w3) \<Rightarrow> (Inl e, self2, w3)
                   | (Inr embeddings, self2, w3) \<Rightarrow>
                       (Inr (batch_embeddings @ embeddings), self2, w3)))))"
  by pat_completeness auto
termination
  by (relation "measure (\<lambda>(self, batch_size, texts, w). length texts)") auto

declare batches.simps [simp del]

definition generate_batch_embeddings ::
  "'w EmbeddingService \<Rightarrow> string list \<Rightarrow> int option \<Rightarrow> 'w
    \<Rightarrow> (raised + real list list) \<times> 'w EmbeddingService \<times> 'w"
where
  "generate_batch_embeddings self texts batch_size w =
     (if texts = [] then (Inr [], self, w)
      else
        (let batch_size = (case batch_size of
                             None \<Rightarrow> max_batch_size
                           | Some b \<Rightarrow> if b = 0 then max_batch_size else b)
         in if batch_size < 0 then (Inr [], self, w)
            else batches self (nat batch_size) texts w))"

subsection \<open>The contract of one position\<close>

text \<open>
  The vector the contract gives the text at one position of a batch, from the cache as it
  is when the batch starts and the vectors the backend returned for the texts sent to it:
  the zero vector for an empty or whitespace text, the cached vector for a text whose hash
  the cache holds, otherwise the vector the backend returned, and the zero vector when it
  returned none.
\<close>

definition contract_vector ::
  "(int \<rightharpoonup> real list) \<Rightarrow> (string \<Rightarrow> int) \<Rightarrow> (string \<rightharpoonup> real list) \<Rightarrow> string \<Rightarrow> real list"
where
  "contract_vector cache hash returned original_text =
     (let t = str_strip original_text
      in if t = [] then zero_vector
         else (case cache (hash t) of
                 Some v \<Rightarrow> v
               | None \<Rightarrow> (case returned t of Some v \<Rightarrow> v | None \<Rightarrow> zero_vector)))"

subsection \<open>Services over concrete backends\<close>

text \<open>
  Three services that have cached a vector for \<open>hello\<close>: the backend of the first is down,
  the request of the second is cancelled while the backend is awaited, and the backend of
  the third answers every text with a vector filled with the length of the text. The hash
  (the length of the text) stands in for Python's.
\<close>

definition outage_service :: "unit EmbeddingService" where
  "outage_service =
     \<lparr>py_hash = (\<lambda>s. int (length s)),
      embeddings_create = (\<lambda>texts w. (Inl (Exc (Exception ''503'')), w)),
      asyncio_sleep = (\<lambda>w. (None, w)),
      embedding_cache = [5 \<mapsto> replicate dimensions 1],
      cache_hits = 0,
      cache_misses = 1\<rparr>"

definition cancelled_service :: "unit EmbeddingService" where
  "cancelled_service =
     \<lparr>py_hash = (\<lambda>s. int (length s)),
      embeddings_create = (\<lambda>texts w. (Inl (BaseExc ''CancelledError''), w)),
      asyncio_sleep = (\<lambda>w. (None, w)),
      embedding_cache = [5 \<mapsto> replicate dimensions 1],
      cache_hits = 0,
      cache_misses = 1\<rparr>"

definition length_service :: "unit EmbeddingService" where
  "length_service =
     \<lparr>py_hash = (\<lambda>s. int (length s)),
      embeddings_create =
        (\<lambda>texts w. (Inr (map (\<lambda>t. replicate dimensions (real (length t))) texts), w)),
      asyncio_sleep = (\<lambda>w. (None, w)),
      embedding_cache = [5 \<mapsto> replicate dimensions 1],
      cache_hits = 0,
      cache_misses = 1\<rparr>"

section \<open>The chunk processor\<close>

subsection \<open>Regular expressions\<close>

text \<open>
  Each regular expression of the source is modelled by a matcher: given the character
  before the position (\<open>None\<close> at the start of the text) and the text from the position on,
  it returns the length of the match that Python's backtracking search finds there, if any.
  No expression of the source matches the empty string. \<open>finditer\<close> lists the start and the
  length of the non-overlapping matches from left to right, as \<open>re.finditer\<close> does;
  \<open>skip\<close> counts the characters that still belong to the last match.
\<close>

type_synonym matcher = "char option \<Rightarrow> string \<Rightarrow> nat option"

fun finditer_from :: "matcher \<Rightarrow> char option \<Rightarrow> nat \<Rightarrow> nat \<Rightarrow> string \<Rightarrow> (nat \<times> nat) list" where
  "finditer_from m prev pos skip [] = []"
| "finditer_from m prev pos skip (c # cs) =
     (if skip > 0 then finditer_from m (Some c) (Suc pos) (skip - 1) cs
      else case m prev (c # cs) of
             Some n \<Rightarrow> (pos, n) # finditer_from m (Some c) (Suc pos) (n - 1) cs
           | None \<Rightarrow> finditer_from m (Some c) (Suc pos) 0 cs)"

definition finditer :: "matcher \<Rightarrow> string \<Rightarrow> (nat \<times> nat) list" where
  "finditer m s = finditer_from m None 0 0 s"

definition findall_count :: "matcher \<Rightarrow> string \<Rightarrow> nat" where
  \<comment> \<open>\<open>len(re.findall(pattern, s))\<close>\<close>
  "findall_count m s = length (finditer m s)"

fun pieces :: "nat \<Rightarrow> (nat \<times> nat) list \<Rightarrow> string \<Rightarrow> string list" where
  \<comment> \<open>the text between the matches; \<open>pos\<close> is the offset of \<open>s\<close> in the whole text\<close>
  "pieces pos [] s = [s]"
| "pieces pos ((start, n) # ms) s =
     take (start - pos) s # pieces (start + n) ms (drop (start + n - pos) s)"

definition re_split :: "matcher \<Rightarrow> string \<Rightarrow> string list" where
  \<comment> \<open>\<open>pattern.split(s)\<close> for a pattern without groups\<close>
  "re_split m s = pieces 0 (finditer m s) s"

definition line_start :: "char option \<Rightarrow> bool" where
  \<comment> \<open>\<open>^\<close> under \<open>re.MULTILINE\<close>\<close>
  "line_start prev \<longleftrightarrow> prev = None \<or> prev = Some (CHR 0x0A)"

definition rest_of_line :: "string \<Rightarrow> string" where
  \<comment> \<open>\<open>.*\<close>: up to the next newline\<close>
  "rest_of_line s = takeWhile (\<lambda>c. c \<noteq> CHR 0x0A) s"

definition is_terminator :: "char \<Rightarrow> bool" where
  "is_terminator c \<longleftrightarrow> c \<in> set ''.!?''"

definition is_qa :: "char \<Rightarrow> bool" where
  \<comment> \<open>\<open>[QA]\<close> under \<open>re.IGNORECASE\<close>\<close>
  "is_qa c \<longleftrightarrow> c \<in> set ''QAqa''"

definition is_upper :: "char \<Rightarrow> bool" where
  "is_upper c \<longleftrightarrow> c \<in> set ''ABCDEFGHIJKLMNOPQRSTUVWXYZ''"

definition is_lower :: "char \<Rightarrow> bool" where
  "is_lower c \<longleftrightarrow> c \<in> set ''abcdefghijklmnopqrstuvwxyz''"

definition is_digit :: "char \<Rightarrow> bool" where
  "is_digit c \<longleftrightarrow> c \<in> set ''0123456789''"

definition is_bullet :: "char \<Rightarrow> bool" where
  \<comment> \<open>the class \<open>[-*+\<bullet>]\<close>; the bullet U+2022 is not a code point below 256\<close>
  "is_bullet c \<longleftrightarrow> c \<in> set ''-*+''"

definition is_word :: "char \<Rightarrow> bool" where
  \<comment> \<open>\<open>\w\<close> on code points below 256\<close>
  "is_word c \<longleftrightarrow>
     is_digit c \<or> is_upper c \<or> is_lower c \<or> c = CHR ''_'' \<or>
     (let n = (of_char c :: nat)
      in n \<in> set [170, 178, 179, 181, 185, 186, 188, 189, 190] \<or>
         (192 \<le> n \<and> n \<le> 214) \<or> (216 \<le> n \<and> n \<le> 246) \<or> 248 \<le> n)"

definition sentence_endings :: matcher where
  \<comment> \<open>\<open>[.!?]+\s+\<close>\<close>
  "sentence_endings prev s =
     (let run = takeWhile is_terminator s;
          ws = takeWhile isspace (dropWhile is_terminator s)
      in if run \<noteq> [] \<and> ws \<noteq> [] then Some (length run + length ws) else None)"

definition paragraph_breaks :: matcher where
  \<comment> \<open>\<open>\n\s*\n\<close>: a newline, then whitespace whose last newline ends the match\<close>
  "paragraph_breaks prev s =
     (case s of
        [] \<Rightarrow> None
      | c # r \<Rightarrow>
          (let ws = takeWhile isspace r;
               upto = rev (dropWhile (\<lambda>c. c \<noteq> CHR 0x0A) (rev ws))
           in if c = CHR 0x0A \<and> upto \<noteq> [] then Some (1 + length upto) else None))"

definition header_pattern :: matcher where
  \<comment> \<open>\<open>^#{1,6}\s+.*$\<close> under \<open>re.MULTILINE\<close>\<close>
  "header_pattern prev s =
     (let hashes = takeWhile (\<lambda>c. c = CHR ''#'') s;
          r = dropWhile (\<lambda>c. c = CHR ''#'') s;
          ws = takeWhile isspace r
      in if line_start prev \<and> 1 \<le> length hashes \<and> length hashes \<le> 6 \<and> ws \<noteq> []
         then Some (length hashes + length ws + length (rest_of_line (dropWhile isspace r)))
         else None)"

definition list_pattern :: matcher where
  \<comment> \<open>\<open>^\s*[-*+\<bullet>]\s+.*$\<close> under \<open>re.MULTILINE\<close>\<close>
  "list_pattern prev s =
     (let ws0 = takeWhile isspace s
      in case dropWhile isspace s of
           [] \<Rightarrow> None
         | b # r \<Rightarrow>
             (let ws1 = takeWhile isspace r
              in if line_start prev \<and> is_bullet b \<and> ws1 \<noteq> []
                 then Some (length ws0 + 1 + length ws1
                            + length (rest_of_line (dropWhile isspace r)))
                 else None))"

definition qa_marker :: matcher where
  \<comment> \<open>\<open>[QA]:\s*\<close> under \<open>re.IGNORECASE\<close>\<close>
  "qa_marker prev s =
     (case s of
        c1 # c2 # r \<Rightarrow>
          if is_qa c1 \<and> c2 = CHR '':'' then Some (2 + length (takeWhile isspace r)) else None
      | _ \<Rightarrow> None)"

definition dialogue_marker :: matcher where
  \<comment> \<open>\<open>^\s*[A-Z][a-z]+:\s+\<close> under \<open>re.MULTILINE\<close>\<close>
  "dialogue_marker prev s =
     (let ws0 = takeWhile isspace s
      in case dropWhile isspace s of
           [] \<Rightarrow> None
         | u # r \<Rightarrow>
             (let name = takeWhile is_lower r
              in case dropWhile is_lower r of
                   [] \<Rightarrow> None
                 | colon # r' \<Rightarrow>
                     (let ws1 = takeWhile isspace r'
                      in if line_start prev \<and> is_upper u \<and> name \<noteq> [] \<and> colon = CHR '':''
                            \<and> ws1 \<noteq> []
                         then Some (length ws0 + 1 + length name + 1 + length ws1)
                         else None)))"

text \<open>
  The lookahead \<open>(?=[QA]:|$)\<close>: a marker follows, or the text ends here, or only its last
  newline is left.
\<close>

definition qa_lookahead :: "string \<Rightarrow> bool" where
  "qa_lookahead s \<longleftrightarrow>
     s = [] \<or> s = [CHR 0x0A] \<or>
     (case s of c1 # c2 # r \<Rightarrow> is_qa c1 \<and> c2 = CHR '':'' | _ \<Rightarrow> False)"

fun qa_body :: "string \<Rightarrow> nat option" where
  \<comment> \<open>\<open>([^QA]*?)(?=[QA]:|$)\<close>: the shortest run without Q or A that reaches the lookahead\<close>
  "qa_body [] = Some 0"
| "qa_body (c # cs) =
     (if qa_lookahead (c # cs) then Some 0
      else if is_qa c then None
      else map_option Suc (qa_body cs))"

definition qa_pair :: matcher where
  \<comment> \<open>\<open>[QA]:\s*([^QA]*?)(?=[QA]:|$)\<close> under \<open>re.IGNORECASE | re.DOTALL\<close>\<close>
  "qa_pair prev s =
     (case s of
        c1 # c2 # r \<Rightarrow>
          if is_qa c1 \<and> c2 = CHR '':''
          then map_option (\<lambda>n. 2 + length (takeWhile isspace r) + n)
                 (qa_body (dropWhile isspace r))
          else None
      | _ \<Rightarrow> None)"

definition whole_number :: matcher where
  \<comment> \<open>\<open>\b\d+\b\<close>\<close>
  "whole_number prev s =
     (let digits = takeWhile is_digit s;
          r = dropWhile is_digit s
      in if digits \<noteq> [] \<and> \<not> (case prev of Some c \<Rightarrow> is_word c | None \<Rightarrow> False)
            \<and> \<not> (case r of c # _ \<Rightarrow> is_word c | [] \<Rightarrow> False)
         then Some (length digits) else None)"

definition clause_separator :: matcher where
  \<comment> \<open>\<open>[,;]\<close>\<close>
  "clause_separator prev s =
     (case s of c # _ \<Rightarrow> if c \<in> set '',;'' then Some 1 else None | [] \<Rightarrow> None)"

fun contains :: "string \<Rightarrow> string \<Rightarrow> bool" where
  \<comment> \<open>\<open>sub in s\<close>\<close>
  "contains sub [] = (sub = [])"
| "contains sub (c # cs) = (take (length sub) (c # cs) = sub \<or> contains sub cs)"

subsection \<open>The processor and its chunks\<close>

text \<open>
  \<open>encoding\<close> is the tiktoken encoding: \<open>None\<close> when it could not be loaded, and an
  encoder that answers \<open>None\<close> where \<open>encode\<close> raises.
\<close>

record ChunkProcessor =
  encoding :: "(string \<Rightarrow> nat option) option"
  max_chunk_tokens :: int
  overlap_tokens :: int
  min_chunk_tokens :: int

record DocumentChunk =
  "text" :: string
  chunk_index :: nat
  token_count :: real
  metadata :: "string \<rightharpoonup> string"
  chunk_type :: string
  start_char :: nat
  end_char :: nat

text \<open>A raw chunk is a string or a dictionary with the keys below.\<close>

datatype raw_chunk =
  Plain string
| Dict (d_text: string) (d_metadata: "string \<rightharpoonup> string") (d_start_char: nat) (d_end_char: nat)

subsection \<open>\<open>ChunkProcessor._count_tokens\<close>\<close>

definition count_tokens :: "ChunkProcessor \<Rightarrow> string \<Rightarrow> real" where
  "count_tokens self t =
     (if t = [] then 0
      else
        (case (case encoding self of Some encode \<Rightarrow> encode t | None \<Rightarrow> None) of
           Some n \<Rightarrow> real n
         | None \<Rightarrow> real (length (str_split t)) * (13 / 10)))"

subsection \<open>\<open>ChunkProcessor._clean_text\<close>\<close>

fun sub_whitespace :: "bool \<Rightarrow> string \<Rightarrow> string" where
  \<comment> \<open>\<open>re.sub(r'\s+', ' ', text)\<close>; the flag says that the last character was whitespace\<close>
  "sub_whitespace in_run [] = []"
| "sub_whitespace in_run (c # cs) =
     (if isspace c then (if in_run then sub_whitespace True cs
                         else CHR '' '' # sub_whitespace True cs)
      else c # sub_whitespace False cs)"

fun sub_line_breaks :: "bool \<Rightarrow> string \<Rightarrow> string" where
  \<comment> \<open>\<open>re.sub(r'\r\n|\r|\n', '\n', text)\<close>; the flag says that the last character was \<open>\r\<close>\<close>
  "sub_line_breaks after_cr [] = []"
| "sub_line_breaks after_cr (c # cs) =
     (if c = CHR 0x0D then CHR 0x0A # sub_line_breaks True cs
      else if c = CHR 0x0A then (if after_cr then sub_line_breaks False cs
                                 else CHR 0x0A # sub_line_breaks False cs)
      else c # sub_line_breaks False cs)"

fun sub_runs :: "char \<Rightarrow> nat \<Rightarrow> string \<Rightarrow> string" where
  \<comment> \<open>\<open>re.sub(r'[x]{3,}', 'xxx', text)\<close>; \<open>n\<close> counts the \<open>x\<close> just before, up to three\<close>
  "sub_runs x n [] = []"
| "sub_runs x n (c # cs) =
     (if c = x then (if n \<ge> 3 then sub_runs x 3 cs else c # sub_runs x (Suc n) cs)
      else c # sub_runs x 0 cs)"

definition sub_quotes :: "char \<Rightarrow> string \<Rightarrow> string" where
  \<comment> \<open>\<open>re.sub(r'[qqq]', 'q', text)\<close> for a quote character \<open>q\<close>, as the source has it\<close>
  "sub_quotes q s = map (\<lambda>c. if c = q then q else c) s"

definition clean_text :: "string \<Rightarrow> string" where
  "clean_text t =
     (let t = sub_whitespace False t;
          t = sub_line_breaks False t;
          t = sub_runs (CHR ''.'') 0 t;
          t = sub_runs (CHR ''-'') 0 t;
          t = sub_quotes (CHR 0x22) t;
          t = sub_quotes (CHR 0x27) t
      in str_strip t)"

subsection \<open>\<open>ChunkProcessor._determine_strategy\<close>\<close>

definition determine_strategy :: "string \<Rightarrow> string" where
  "determine_strategy t =
     (let header_count = findall_count header_pattern t;
          list_count = findall_count list_pattern t;
          paragraph_count = findall_count paragraph_breaks t;
          qa_patterns = findall_count qa_marker t;
          dialogue_patterns = findall_count dialogue_marker t
      in if qa_patterns > 3 \<or> dialogue_patterns > 5 then ''conversational''
         else if header_count > 2 \<or> list_count > 5 then ''structured''
         else ''semantic'')"

subsection \<open>\<open>ChunkProcessor._chunk_by_sentences\<close>\<close>

text \<open>The loop over the comma and semicolon parts of a sentence that is over the limit.\<close>

fun parts_loop ::
  "ChunkProcessor \<Rightarrow> string list \<Rightarrow> string list \<Rightarrow> string list \<Rightarrow> real
    \<Rightarrow> string list \<times> string list \<times> real"
where
  "parts_loop self [] chunks temp_chunk temp_tokens = (chunks, temp_chunk, temp_tokens)"
| "parts_loop self (part # sub_parts) chunks temp_chunk temp_tokens =
     (let part_tokens = count_tokens self part
      in if temp_tokens + part_tokens \<le> real_of_int (max_chunk_tokens self)
         then parts_loop self sub_parts chunks (temp_chunk @ [str_strip part])
                (temp_tokens + part_tokens)
         else parts_loop self sub_parts
                (if temp_chunk \<noteq> [] then chunks @ [str_join '' '' temp_chunk] else chunks)
                [str_strip part] part_tokens)"

text \<open>The loop over the sentences, and the chunk added after it.\<close>

fun sentences_loop ::
  "ChunkProcessor \<Rightarrow> string list \<Rightarrow> string list \<Rightarrow> string list \<Rightarrow> real \<Rightarrow> string list"
where
  "sentences_loop self [] chunks current_chunk current_tokens =
     (if current_chunk \<noteq> [] then chunks @ [str_join '' '' current_chunk] else chunks)"
| "sentences_loop self (sentence # sentences) chunks current_chunk current_tokens =
     (let sentence_tokens = count_tokens self sentence
      in if sentence_tokens > real_of_int (max_chunk_tokens self) then
           (let chunks = (if current_chunk \<noteq> [] then chunks @ [str_join '' '' current_chunk]
                          else chunks);
                sub_parts = re_split clause_separator sentence
            in case parts_loop self sub_parts chunks [] 0 of
                 (chunks, temp_chunk, temp_tokens) \<Rightarrow>
                   if temp_chunk \<noteq> []
                   then sentences_loop self sentences chunks temp_chunk temp_tokens
                   else sentences_loop self sentences chunks [] 0)
         else if current_tokens + sentence_tokens > real_of_int (max_chunk_tokens self)
                 \<and> current_chunk \<noteq> [] then
           (let chunks = chunks @ [str_join '' '' current_chunk];
                overlap_sentences =
                  (if length current_chunk > 2
                   then drop (length current_chunk - 2) current_chunk else current_chunk);
                current_chunk = overlap_sentences @ [sentence]
            in sentences_loop self sentences chunks current_chunk
                 (count_tokens self (str_join '' '' current_chunk)))
         else sentences_loop self sentences chunks (current_chunk @ [sentence])
                (current_tokens + sentence_tokens))"

definition split_sentences :: "string \<Rightarrow> string list" where
  \<comment> \<open>the first two statements of \<open>_chunk_by_sentences\<close>\<close>
  "split_sentences t =
     map str_strip (filter (\<lambda>s. str_strip s \<noteq> []) (re_split sentence_endings t))"

definition chunk_by_sentences :: "ChunkProcessor \<Rightarrow> string \<Rightarrow> string list" where
  "chunk_by_sentences self t = sentences_loop self (split_sentences t) [] [] 0"

subsection \<open>\<open>ChunkProcessor._chunk_by_structure\<close>\<close>

fun structure_loop :: "ChunkProcessor \<Rightarrow> string list \<Rightarrow> nat \<Rightarrow> raw_chunk list" where
  "structure_loop self [] current_position = []"
| "structure_loop self (section_text # sections) current_position =
     (if str_strip section_text = []
      then structure_loop self sections (current_position + length section_text)
      else
        (if count_tokens self section_text \<le> real_of_int (max_chunk_tokens self)
         then [Dict (str_strip section_text) [''chunk_method'' \<mapsto> ''structural'']
                 current_position (current_position + length section_text)]
         else map (\<lambda>sub_chunk.
                     Dict sub_chunk [''chunk_method'' \<mapsto> ''structural_subdivided'']
                       current_position (current_position + length sub_chunk))
                (chunk_by_sentences self section_text))
        @ structure_loop self sections (current_position + length section_text))"

definition chunk_by_structure :: "ChunkProcessor \<Rightarrow> string \<Rightarrow> raw_chunk list" where
  "chunk_by_structure self t = structure_loop self (re_split header_pattern t) 0"

subsection \<open>\<open>ChunkProcessor._chunk_by_dialogue\<close>\<close>

text \<open>
  The loop over the matches, each given by its start and the matched text, and the chunk
  added after it.
\<close>

fun dialogue_loop ::
  "ChunkProcessor \<Rightarrow> (nat \<times> string) list \<Rightarrow> string \<Rightarrow> real \<Rightarrow> nat \<Rightarrow> raw_chunk list"
where
  "dialogue_loop self [] current_chunk current_tokens current_position =
     (if current_chunk \<noteq> []
      then [Dict current_chunk [''chunk_method'' \<mapsto> ''dialogue''] current_position
              (current_position + length current_chunk)]
      else [])"
| "dialogue_loop self ((start, group0) # qa_matches) current_chunk current_tokens
     current_position =
     (let qa_text = str_strip group0;
          qa_tokens = count_tokens self qa_text
      in if current_tokens + qa_tokens \<le> real_of_int (max_chunk_tokens self)
         then dialogue_loop self qa_matches
                (current_chunk @ (if current_chunk \<noteq> [] then NL @ NL @ qa_text else qa_text))
                (current_tokens + qa_tokens) current_position
         else (if current_chunk \<noteq> []
               then [Dict current_chunk [''chunk_method'' \<mapsto> ''dialogue''] current_position
                       (current_position + length current_chunk)]
               else [])
              @ dialogue_loop self qa_matches qa_text qa_tokens start)"

definition chunk_by_dialogue :: "ChunkProcessor \<Rightarrow> string \<Rightarrow> raw_chunk list" where
  "chunk_by_dialogue self t =
     (let qa_matches = map (\<lambda>(start, n). (start, take n (drop start t))) (finditer qa_pair t)
      in if qa_matches \<noteq> [] then dialogue_loop self qa_matches [] 0 0
         else map Plain (chunk_by_sentences self t))"

subsection \<open>\<open>ChunkProcessor._identify_chunk_type\<close>\<close>

definition identify_chunk_type :: "string \<Rightarrow> string" where
  "identify_chunk_type t =
     (let text_lower = str_lower t
      in if (case dropWhile isspace t of c1 # c2 # r \<Rightarrow> is_qa c1 \<and> c2 = CHR '':'' | _ \<Rightarrow> False)
         then ''qa_pair''
         else if list_ex (\<lambda>word. contains word text_lower)
                   [''step'', ''process'', ''procedure'', ''method'']
         then ''process''
         else if list_ex (\<lambda>word. contains word text_lower)
                   [''definition'', ''means'', ''refers to'', ''is defined as'']
         then ''definition''
         else if str_count t ''?'' > 0 then ''question''
         else if findall_count whole_number t > 3 then ''data''
         else if list_ex (\<lambda>word. contains word text_lower)
                   [''example'', ''instance'', ''such as'', ''for example'']
         then ''example''
         else if (case dropWhile isspace t of
                    b # r \<Rightarrow> is_bullet b \<and> takeWhile isspace r \<noteq> [] | [] \<Rightarrow> False)
         then ''list''
         else if (let hashes = takeWhile (\<lambda>c. c = CHR ''#'') t
                  in 1 \<le> length hashes \<and> length hashes \<le> 6
                     \<and> takeWhile isspace (dropWhile (\<lambda>c. c = CHR ''#'') t) \<noteq> [])
         then ''header''
         else ''general'')"

subsection \<open>\<open>ChunkProcessor.smart_chunk_document\<close>\<close>

text \<open>The loop over \<open>enumerate(raw_chunks)\<close>; \<open>i\<close> is the ordinal of the next raw chunk.\<close>

fun process_chunks ::
  "ChunkProcessor \<Rightarrow> (string \<rightharpoonup> string) option \<Rightarrow> nat \<Rightarrow> raw_chunk list \<Rightarrow> DocumentChunk list"
where
  "process_chunks self md i [] = []"
| "process_chunks self md i (chunk_data # raw_chunks) =
     (let metadata_or_empty = (case md of Some m \<Rightarrow> m | None \<Rightarrow> Map.empty);
          chunk_text = (case chunk_data of Dict t m s e \<Rightarrow> t | Plain t \<Rightarrow> t);
          chunk_metadata = (case chunk_data of
                              Dict t m s e \<Rightarrow> metadata_or_empty ++ m
                            | Plain t \<Rightarrow> metadata_or_empty);
          start_char = (case chunk_data of Dict t m s e \<Rightarrow> s | Plain t \<Rightarrow> 0);
          end_char = (case chunk_data of Dict t m s e \<Rightarrow> e | Plain t \<Rightarrow> length chunk_text)
      in if count_tokens self chunk_text < real_of_int (min_chunk_tokens self)
         then process_chunks self md (Suc i) raw_chunks
         else \<lparr>text = str_strip chunk_text,
               chunk_index = i,
               token_count = count_tokens self chunk_text,
               metadata = chunk_metadata,
               chunk_type = identify_chunk_type chunk_text,
               start_char = start_char,
               end_char = end_char\<rparr> # process_chunks self md (Suc i) raw_chunks)"

definition smart_chunk_document ::
  "ChunkProcessor \<Rightarrow> string \<Rightarrow> (string \<rightharpoonup> string) option \<Rightarrow> DocumentChunk list"
where
  "smart_chunk_document self t md =
     (if t = [] \<or> str_strip t = [] then []
      else
        (let clean = clean_text t;
             chunk_strategy = determine_strategy clean;
             raw_chunks =
               (if chunk_strategy = ''structured'' then chunk_by_structure self clean
                else if chunk_strategy = ''conversational'' then chunk_by_dialogue self clean
                else map Plain (chunk_by_sentences self clean))
         in process_chunks self md 0 raw_chunks))"

text \<open>
  The list \<open>raw_chunks\<close> that the loop of \<open>smart_chunk_document\<close> enumerates for a text
  that is not blank, and the \<open>chunk_text\<close> of one of its elements.
\<close>

definition raw_chunks :: "ChunkProcessor \<Rightarrow> string \<Rightarrow> raw_chunk list" where
  "raw_chunks self t =
     (let clean = clean_text t;
          chunk_strategy = determine_strategy clean
      in if chunk_strategy = ''structured'' then chunk_by_structure self clean
         else if chunk_strategy = ''conversational'' then chunk_by_dialogue self clean
         else map Plain (chunk_by_sentences self clean))"

definition raw_text :: "raw_chunk \<Rightarrow> string" where
  "raw_text chunk_data = (case chunk_data of Dict t m s e \<Rightarrow> t | Plain t \<Rightarrow> t)"

text \<open>
  The processor as the constructor sets it up when tiktoken cannot be loaded, so that tokens
  are counted as 1.3 per word.
\<close>

definition word_count_processor :: ChunkProcessor where
  "word_count_processor =
     \<lparr>encoding = None, max_chunk_tokens = 500, overlap_tokens = 50, min_chunk_tokens = 50\<rparr>"

text \<open>
  A greeting followed by a sentence of 384 one-letter words: \<open>Hi there. x x ... x\<close>.
  \<open>spaced_words n\<close> is \<open>n\<close> times a space and the word \<open>x\<close>.
\<close>

definition spaced_words :: "nat \<Rightarrow> string" where
  "spaced_words n = concat (replicate n '' x'')"

definition greeting_document :: string where
  "greeting_document = ''Hi there. x'' @ spaced_words 383"

text \<open>
  A sentence of 400 one-letter words with the clause \<open>hi there\<close> at its end, followed by a
  second sentence of 400 one-letter words: \<open>x x ... x, hi there. x x ... x\<close>.
\<close>

definition gap_document :: string where
  "gap_document = ''x'' @ spaced_words 399 @ '', hi there. x'' @ spaced_words 399"

section \<open>Properties of the retrieval pipeline\<close>

subsection \<open>Floats\<close>

lemma max_double_ge: "2 \<le> max_double"
proof -
  have "(2::real) ^ 971 \<le> 2 ^ 1023"
    by (rule power_increasing) simp_all
  moreover have "(2::real) ^ 1024 = 2 * 2 ^ 1023"
    by simp
  moreover have "(2::real) ^ 1 \<le> 2 ^ 1023"
    by (rule power_increasing) simp_all
  ultimately show ?thesis
    unfolding max_double_def by simp
qed

lemma overflow_small: "\<bar>x\<bar> \<le> 2 \<Longrightarrow> overflow x = Fin x"
  using max_double_ge by (auto simp add: overflow_def)

lemma overflow_not_nan: "overflow x \<noteq> NaN"
  by (simp add: overflow_def)

lemma fadd_finite_not_nan: "x \<noteq> NaN \<Longrightarrow> is_finite y \<Longrightarrow> fadd x y \<noteq> NaN"
  by (cases x; cases y) (simp_all add: is_finite_def overflow_not_nan)

lemma fadd_Fin_not_nan: "y \<noteq> NaN \<Longrightarrow> fadd (Fin a) y \<noteq> NaN"
  by (cases y) (simp_all add: overflow_not_nan)

lemma foldl_fadd_not_nan:
  "acc \<noteq> NaN \<Longrightarrow> \<forall>x\<in>set xs. is_finite x \<Longrightarrow> foldl fadd acc xs \<noteq> NaN"
  by (induction xs arbitrary: acc) (simp_all add: fadd_finite_not_nan)

lemma fsum_not_nan: "\<forall>x\<in>set xs. is_finite x \<Longrightarrow> fsum xs \<noteq> NaN"
  unfolding fsum_def by (rule foldl_fadd_not_nan) simp_all

lemma fdiv_count_not_nan: "x \<noteq> NaN \<Longrightarrow> fdiv_count x n \<noteq> NaN"
  by (cases x) simp_all

lemma fmul_const_not_nan: "x \<noteq> NaN \<Longrightarrow> 0 < w \<Longrightarrow> fmul_const x w \<noteq> NaN"
  by (cases x) (simp_all add: overflow_not_nan)

lemma fmul_const_small: "\<bar>a\<bar> \<le> 1 \<Longrightarrow> \<bar>w\<bar> \<le> 1 \<Longrightarrow> fmul_const (Fin a) w = Fin (a * w)"
proof -
  assume "\<bar>a\<bar> \<le> 1" "\<bar>w\<bar> \<le> 1"
  then have "\<bar>a\<bar> * \<bar>w\<bar> \<le> 1 * 1"
    by (intro mult_mono) simp_all
  then have "\<bar>a * w\<bar> \<le> 2"
    by (simp add: abs_mult)
  then show ?thesis
    by (simp add: overflow_small)
qed

lemma clamp_cases:
  "in_unit (py_min (py_max x (Fin 0)) (Fin 1)) \<or> py_min (py_max x (Fin 0)) (Fin 1) = NaN"
  by (cases x) (simp_all add: py_min_def py_max_def fgt_def in_unit_def)

lemma clamp_not_nan: "x \<noteq> NaN \<Longrightarrow> in_unit (py_min (py_max x (Fin 0)) (Fin 1))"
  by (cases x) (simp_all add: py_min_def py_max_def fgt_def in_unit_def)

lemma clamp_unit_Fin: "0 \<le> a \<Longrightarrow> a \<le> 1 \<Longrightarrow> py_min (py_max (Fin a) (Fin 0)) (Fin 1) = Fin a"
  by (simp add: py_min_def py_max_def fgt_def)

subsection \<open>Confidence\<close>

lemma str_split_hi: "str_split ''hi'' = [''hi'']"
  by (simp add: str_split_def isspace_def)

text \<open>
  With no training data and no search results the factor list holds the simplicity factor
  alone, so the padding puts it in the first slot, under the weight 0.4.
\<close>

lemma calculate_confidence_no_data:
  "calculate_confidence [] [] q =
     Fin ((1 - min (real (length (str_split q)) / 10) 1 * (3 / 10)) * (4 / 10))"
proof -
  define s where "s = 1 - min (real (length (str_split q)) / 10) 1 * (3 / 10)"
  have s: "0 \<le> s" "s \<le> 1"
    unfolding s_def by (simp_all add: min_def)
  then have m: "fmul_const (Fin s) (4 / 10) = Fin (s * (4 / 10))"
    by (intro fmul_const_small) simp_all
  have z: "fmul_const (Fin 0) w = Fin 0" for w
    by (simp add: overflow_small)
  have a: "fadd (Fin 0) (Fin (s * (4 / 10))) = Fin (s * (4 / 10))"
    using s by (simp add: overflow_small)
  have b: "fadd (Fin (s * (4 / 10))) (Fin 0) = Fin (s * (4 / 10))"
    using s by (simp add: overflow_small)
  have c: "py_min (py_max (Fin (s * (4 / 10))) (Fin 0)) (Fin 1) = Fin (s * (4 / 10))"
    using s by (intro clamp_unit_Fin) simp_all
  have "calculate_confidence [] [] q =
          py_min (py_max (fsum [fmul_const (Fin s) (4 / 10), fmul_const (Fin 0) (3 / 10),
                                fmul_const (Fin 0) (2 / 10), fmul_const (Fin 0) (1 / 10)])
                    (Fin 0)) (Fin 1)"
    by (simp add: calculate_confidence_def weights_def s_def)
  also have "\<dots> = Fin (s * (4 / 10))"
    unfolding fsum_def by (simp only: foldl.simps m z a b c)
  finally show ?thesis
    unfolding s_def .
qed

lemma simplicity_pos: "0 < (1 - min (real (length (str_split q)) / 10) 1 * (3 / 10)) * (4 / 10)"
  by (simp add: min_def)

text \<open>
  C2. The confidence is claimed to be a weighted sum over four fixed slots, a missing factor
  counting 0 in its own slot. The source appends the factors that are present and pads at the
  end, so the later factors move into the vacated slots: for the query \<open>hi\<close> with no training
  data and no results the simplicity factor 0.97 is weighted 0.4 (confidence 0.388), where the
  four fixed slots give it the weight 0.1 (confidence 0.097).
\<close>

theorem confidence_weights_shift:
  "calculate_confidence [] [] ''hi'' = Fin (97 / 250) \<and>
   four_slot_confidence [] [] ''hi'' = Fin (97 / 1000)"
proof -
  have "calculate_confidence [] [] ''hi'' = Fin (97 / 250)"
    by (simp add: calculate_confidence_no_data str_split_hi)
  moreover have "four_slot_confidence [] [] ''hi'' = Fin (97 / 1000)"
    by (simp add: four_slot_confidence_def clamp_unit_def str_split_hi fsum_def
        py_min_def py_max_def fgt_def overflow_small)
  ultimately show ?thesis ..
qed

subsection \<open>The orchestrator\<close>

lemma build_empty: "build_comprehensive_context fmt srt q [] [] n = []"
  by (simp add: build_comprehensive_context_def)

lemma body_returns:
  assumes "get_training_context self qry ak tid w = (Inr tc, w1)"
    and "(if hy then hybrid_search self qry ak tid mc (7 / 10) (3 / 10) w1
          else semantic_search self qry ak tid mc (6 / 10) w1) = (Inr rs, w2)"
  shows "retrieve_context_body self qry ak tid hy mc w =
     (Inr \<lparr>query = qry, retrieved_chunks = rs,
           context_text =
             build_comprehensive_context (format_2f self) (sorted_nan self) qry tc rs
               (max_context_tokens self),
           source_count = length rs,
           confidence_score = calculate_confidence tc rs qry,
           processing_time = now self w2 - now self w,
           context_sources =
             (if tc \<noteq> [] then [''training_data''] else [])
               @ (if rs \<noteq> [] then [if hy then ''hybrid'' else ''vector''] else []),
           token_count =
             \<lfloor>real (length (str_split
                (build_comprehensive_context (format_2f self) (sorted_nan self) qry tc rs
                   (max_context_tokens self)))) * (13 / 10)\<rfloor>\<rparr>, w2)"
  using assms by (cases hy) (simp_all add: retrieve_context_body_def Let_def)

lemma body_no_data:
  assumes "get_training_context self qry ak tid w = (Inr [], w1)"
    and "(if hy then hybrid_search self qry ak tid mc (7 / 10) (3 / 10) w1
          else semantic_search self qry ak tid mc (6 / 10) w1) = (Inr [], w2)"
  shows "retrieve_context_body self qry ak tid hy mc w =
     (Inr \<lparr>query = qry, retrieved_chunks = [], context_text = [], source_count = 0,
           confidence_score = calculate_confidence [] [] qry,
           processing_time = now self w2 - now self w, context_sources = [],
           token_count = 0\<rparr>, w2)"
  using assms by (cases hy) (simp_all add: retrieve_context_body_def build_empty str_split_def)

text \<open>
  C1 (as amended). When the training-data service returns the empty string and the search
  returns no result, \<open>retrieve_context\<close> returns a context with an empty \<open>context_text\<close> and
  \<open>source_count\<close> 0, and its confidence is a finite number strictly above 0: the
  query-simplicity factor is always present.
\<close>

theorem no_data_context:
  assumes "get_training_context self qry ak tid w = (Inr [], w1)"
    and "(if hy then hybrid_search self qry ak tid mc (7 / 10) (3 / 10) w1
          else semantic_search self qry ak tid mc (6 / 10) w1) = (Inr [], w2)"
  shows "\<not> isl (fst (retrieve_context self qry ak tid hy mc w)) \<and>
         context_text (projr (fst (retrieve_context self qry ak tid hy mc w))) = [] \<and>
         source_count (projr (fst (retrieve_context self qry ak tid hy mc w))) = 0 \<and>
         is_finite (confidence_score (projr (fst (retrieve_context self qry ak tid hy mc w)))) \<and>
         fgt (confidence_score (projr (fst (retrieve_context self qry ak tid hy mc w)))) (Fin 0)"
  using simplicity_pos[of qry]
  by (simp add: retrieve_context_def body_no_data[OF assms] calculate_confidence_no_data
      is_finite_def fgt_def)

theorem no_data_context_witness:
  "\<not> isl (fst (retrieve_context no_data_pipeline ''hi'' None None True 15 ())) \<and>
   context_text (projr (fst (retrieve_context no_data_pipeline ''hi'' None None True 15 ()))) = [] \<and>
   source_count (projr (fst (retrieve_context no_data_pipeline ''hi'' None None True 15 ()))) = 0 \<and>
   is_finite (confidence_score
     (projr (fst (retrieve_context no_data_pipeline ''hi'' None None True 15 ())))) \<and>
   fgt (confidence_score
     (projr (fst (retrieve_context no_data_pipeline ''hi'' None None True 15 ())))) (Fin 0)"
  by (rule no_data_context[where ?w1.0="()" and ?w2.0="()"]) (simp_all add: no_data_pipeline_def)

text \<open>
  C1 as stated fails: with an empty corpus and no training data the query \<open>hi\<close> gets the
  confidence 0.388, not 0.
\<close>

theorem no_data_confidence_counterexample:
  "\<not> isl (fst (retrieve_context no_data_pipeline ''hi'' None None True 15 ())) \<and>
   confidence_score (projr (fst (retrieve_context no_data_pipeline ''hi'' None None True 15 ())))
     = Fin (97 / 250) \<and>
   confidence_score (projr (fst (retrieve_context no_data_pipeline ''hi'' None None True 15 ())))
     \<noteq> Fin 0"
proof -
  have "retrieve_context_body no_data_pipeline ''hi'' None None True 15 () =
     (Inr \<lparr>query = ''hi'', retrieved_chunks = [], context_text = [], source_count = 0,
           confidence_score = calculate_confidence [] [] ''hi'',
           processing_time = now no_data_pipeline () - now no_data_pipeline (),
           context_sources = [], token_count = 0\<rparr>, ())"
    by (rule body_no_data) (simp_all add: no_data_pipeline_def)
  then show ?thesis
    by (simp add: retrieve_context_def calculate_confidence_no_data str_split_hi)
qed

text \<open>
  In the \<open>try\<close> block only the two awaited collaborator calls raise: the block fails
  exactly when the training-data call raises, or it returns and the search raises.
\<close>

lemma body_raises_iff:
  "retrieve_context_body self qry ak tid hy mc w = (Inl x, w1) \<longleftrightarrow>
     get_training_context self qry ak tid w = (Inl x, w1) \<or>
     (\<exists>tc w0. get_training_context self qry ak tid w = (Inr tc, w0) \<and>
        (if hy then hybrid_search self qry ak tid mc (7 / 10) (3 / 10) w0
         else semantic_search self qry ak tid mc (6 / 10) w0) = (Inl x, w1))"
  by (cases hy)
    (auto simp add: retrieve_context_body_def Let_def split: prod.splits sum.splits)




subsection \<open>The confidence of a context with retrieved results\<close>

lemma calculate_confidence_training:
  assumes "tc \<noteq> []" and "rs \<noteq> []"
  shows "calculate_confidence tc rs q =
     py_min (py_max (fsum
       [fmul_const (Fin (9 / 10)) (4 / 10),
        fmul_const (fdiv_count (fsum (map similarity (take 5 rs))) (length (take 5 rs))) (3 / 10),
        fmul_const (Fin (min (real (length (filter (\<lambda>r. fgt (similarity r) (Fin (8 / 10))) rs)) / 10)
                          (2 / 10))) (2 / 10),
        fmul_const (Fin (1 - min (real (length (str_split q)) / 10) 1 * (3 / 10))) (1 / 10)])
       (Fin 0)) (Fin 1)"
  using assms by (simp add: calculate_confidence_def weights_def)

lemma calculate_confidence_results:
  assumes "rs \<noteq> []"
  shows "calculate_confidence [] rs q =
     py_min (py_max (fsum
       [fmul_const (fdiv_count (fsum (map similarity (take 5 rs))) (length (take 5 rs))) (4 / 10),
        fmul_const (Fin (min (real (length (filter (\<lambda>r. fgt (similarity r) (Fin (8 / 10))) rs)) / 10)
                          (2 / 10))) (3 / 10),
        fmul_const (Fin (1 - min (real (length (str_split q)) / 10) 1 * (3 / 10))) (2 / 10),
        fmul_const (Fin 0) (1 / 10)])
       (Fin 0)) (Fin 1)"
  using assms by (simp add: calculate_confidence_def weights_def)

lemma calculate_confidence_no_results:
  assumes "tc \<noteq> []"
  shows "calculate_confidence tc [] q =
     py_min (py_max (fsum
       [fmul_const (Fin (9 / 10)) (4 / 10),
        fmul_const (Fin (1 - min (real (length (str_split q)) / 10) 1 * (3 / 10))) (3 / 10),
        fmul_const (Fin 0) (2 / 10),
        fmul_const (Fin 0) (1 / 10)])
       (Fin 0)) (Fin 1)"
  using assms by (simp add: calculate_confidence_def weights_def)

lemma is_finite_small: "\<bar>a\<bar> \<le> 1 \<Longrightarrow> \<bar>w\<bar> \<le> 1 \<Longrightarrow> is_finite (fmul_const (Fin a) w)"
  by (simp only: fmul_const_small) (simp add: is_finite_def)

text \<open>
  The clamp returns a number between 0 and 1 or NaN, and NaN only when the weighted sum is
  NaN; with finite similarities the sum is not.
\<close>

lemma if_clamp_cases:
  "in_unit (if b then Fin 0 else py_min (py_max x (Fin 0)) (Fin 1)) \<or>
   (if b then Fin 0 else py_min (py_max x (Fin 0)) (Fin 1)) = NaN"
  using clamp_cases[of x] by (simp add: in_unit_def)

lemma calculate_confidence_cases:
  "in_unit (calculate_confidence tc rs q) \<or> calculate_confidence tc rs q = NaN"
  unfolding calculate_confidence_def Let_def by (rule if_clamp_cases)

lemma calculate_confidence_finite:
  assumes "\<forall>x\<in>set rs. is_finite (similarity x)"
  shows "in_unit (calculate_confidence tc rs q)"
proof -
  define s where "s = 1 - min (real (length (str_split q)) / 10) 1 * (3 / 10)"
  define d where
    "d = min (real (length (filter (\<lambda>r. fgt (similarity r) (Fin (8 / 10))) rs)) / 10) (2 / 10)"
  define avg where
    "avg = fdiv_count (fsum (map similarity (take 5 rs))) (length (take 5 rs))"
  have s: "\<bar>s\<bar> \<le> 1"
    unfolding s_def by (simp add: min_def abs_le_iff)
  have d: "\<bar>d\<bar> \<le> 1"
    unfolding d_def by (simp add: min_def abs_le_iff)
  have "\<forall>x\<in>set (map similarity (take 5 rs)). is_finite x"
    using assms by (auto dest: in_set_takeD)
  then have avg: "avg \<noteq> NaN"
    unfolding avg_def by (intro fdiv_count_not_nan fsum_not_nan)
  have fs: "is_finite (fmul_const (Fin s) w)" if "\<bar>w\<bar> \<le> 1" for w
    using s that by (rule is_finite_small)
  have fd: "is_finite (fmul_const (Fin d) w)" if "\<bar>w\<bar> \<le> 1" for w
    using d that by (rule is_finite_small)
  have f0: "is_finite (fmul_const (Fin 0) w)" if "\<bar>w\<bar> \<le> 1" for w
    using that by (intro is_finite_small) simp_all
  have f9: "fmul_const (Fin (9 / 10)) (4 / 10) = Fin (9 / 25)"
    by (simp add: overflow_small)
  have a9: "fadd (Fin 0) (Fin (9 / 25)) = Fin (9 / 25)"
    by (simp add: overflow_small)
  show ?thesis
  proof (cases "rs = []")
    case True
    show ?thesis
    proof (cases "tc = []")
      case True
      then show ?thesis
        using \<open>rs = []\<close> simplicity_pos[of q]
        by (simp add: calculate_confidence_no_data in_unit_def min_def)
    next
      case False
      have "fsum [fmul_const (Fin (9 / 10)) (4 / 10), fmul_const (Fin s) (3 / 10),
                  fmul_const (Fin 0) (2 / 10), fmul_const (Fin 0) (1 / 10)] \<noteq> NaN"
        by (rule fsum_not_nan) (simp add: fs f0 is_finite_small del: fmul_const.simps)
      then show ?thesis
        unfolding \<open>rs = []\<close> calculate_confidence_no_results[OF False] s_def[symmetric]
        by (rule clamp_not_nan)
    qed
  next
    case rs: False
    show ?thesis
    proof (cases "tc = []")
      case True
      have "fadd (Fin 0) (fmul_const avg (4 / 10)) \<noteq> NaN"
        using avg by (intro fadd_Fin_not_nan fmul_const_not_nan) simp_all
      then have "foldl fadd (fadd (Fin 0) (fmul_const avg (4 / 10)))
             [fmul_const (Fin d) (3 / 10), fmul_const (Fin s) (2 / 10), fmul_const (Fin 0) (1 / 10)]
               \<noteq> NaN"
        by (rule foldl_fadd_not_nan) (simp add: fs fd f0 del: fmul_const.simps)
      then have "fsum [fmul_const avg (4 / 10), fmul_const (Fin d) (3 / 10),
                       fmul_const (Fin s) (2 / 10), fmul_const (Fin 0) (1 / 10)] \<noteq> NaN"
        by (simp add: fsum_def del: fmul_const.simps)
      then show ?thesis
        unfolding True calculate_confidence_results[OF rs] s_def[symmetric] d_def[symmetric]
          avg_def[symmetric]
        by (rule clamp_not_nan)
    next
      case False
      have "fadd (Fin (9 / 25)) (fmul_const avg (3 / 10)) \<noteq> NaN"
        using avg by (intro fadd_Fin_not_nan fmul_const_not_nan) simp_all
      then have "foldl fadd (fadd (Fin (9 / 25)) (fmul_const avg (3 / 10)))
             [fmul_const (Fin d) (2 / 10), fmul_const (Fin s) (1 / 10)] \<noteq> NaN"
        by (rule foldl_fadd_not_nan) (simp add: fs fd del: fmul_const.simps)
      then have "fsum [fmul_const (Fin (9 / 10)) (4 / 10), fmul_const avg (3 / 10),
                       fmul_const (Fin d) (2 / 10), fmul_const (Fin s) (1 / 10)] \<noteq> NaN"
        unfolding fsum_def foldl.simps f9 a9 .
      then show ?thesis
        unfolding calculate_confidence_training[OF False rs] s_def[symmetric] d_def[symmetric]
          avg_def[symmetric]
        by (rule clamp_not_nan)
    qed
  qed
qed

lemma body_confidence:
  assumes "retrieve_context_body self qry ak tid hy mc w = (Inr r, w')"
  shows "\<exists>tc. confidence_score r = calculate_confidence tc (retrieved_chunks r) qry"
proof -
  obtain t w1 where t: "get_training_context self qry ak tid w = (t, w1)"
    by (cases "get_training_context self qry ak tid w")
  obtain tc where tc: "t = Inr tc"
    using assms t by (cases t) (simp_all add: retrieve_context_body_def)
  obtain s w2 where s: "(if hy then hybrid_search self qry ak tid mc (7 / 10) (3 / 10) w1
            else semantic_search self qry ak tid mc (6 / 10) w1) = (s, w2)"
    by (cases "(if hy then hybrid_search self qry ak tid mc (7 / 10) (3 / 10) w1
            else semantic_search self qry ak tid mc (6 / 10) w1)")
  obtain rs where rs: "s = Inr rs"
    using assms t tc s by (cases s; cases hy) (simp_all add: retrieve_context_body_def)
  have "confidence_score r = calculate_confidence tc (retrieved_chunks r) qry"
    using assms t tc s rs by (cases hy) (auto simp add: retrieve_context_body_def Let_def)
  then show ?thesis ..
qed

text \<open>
  A context that \<open>retrieve_context\<close> returns has a confidence between 0 and 1 when the
  similarities of its retrieved chunks are finite numbers.
\<close>

lemma retrieve_context_confidence_finite:
  assumes "fst (retrieve_context self qry ak tid hy mc w) = Inr r"
    and "\<forall>x\<in>set (retrieved_chunks r). is_finite (similarity x)"
  shows "in_unit (confidence_score r)"
proof -
  obtain b w' where b: "retrieve_context_body self qry ak tid hy mc w = (b, w')"
    by (cases "retrieve_context_body self qry ak tid hy mc w")
  show ?thesis
  proof (cases b)
    case (Inr r')
    then have "r' = r"
      using b assms(1) by (simp add: retrieve_context_def)
    then obtain tc where "confidence_score r = calculate_confidence tc (retrieved_chunks r) qry"
      using body_confidence[of self qry ak tid hy mc w r w'] b Inr by auto
    then show ?thesis
      using assms(2) by (simp add: calculate_confidence_finite)
  next
    case (Inl x)
    obtain f w'' where f: "get_training_context self qry ak tid w' = (f, w'')"
      by (cases "get_training_context self qry ak tid w'")
    show ?thesis
      using b Inl f assms(1)
      by (auto simp add: retrieve_context_def Let_def in_unit_def
          split: raised.splits sum.splits if_splits)
  qed
qed

subsection \<open>The context assembler\<close>

text \<open>
  When the training text is empty or its section is estimated above the budget, the
  assembled context is the section of the search results alone.
\<close>

lemma build_results_only:
  assumes "\<not> (tc \<noteq> [] \<and>
      real (length (str_split (''EXACT TRAINING DATA:'' @ NL @ tc))) * (13 / 10) \<le> real_of_int n)"
    and "rs \<noteq> []" and "0 < n"
  shows "build_comprehensive_context fmt srt q tc rs n =
     (if snd (add_search_results fmt (real_of_int n) (sorted_desc srt rs) 0 []) \<noteq> []
      then ''SEMANTIC SEARCH RESULTS:'' @ NL @
             str_join (NL @ NL) (snd (add_search_results fmt (real_of_int n) (sorted_desc srt rs) 0 []))
      else [])"
  using assms by (simp add: build_comprehensive_context_def Let_def)

subsection \<open>A similarity that is not a number\<close>

lemma str_split_nan_context:
  "str_split (''SEMANTIC SEARCH RESULTS:'' @ NL @ ''[Source: hybrid_search | Relevance: nan]''
       @ NL @ ''doc'') =
     [''SEMANTIC'', ''SEARCH'', ''RESULTS:'', ''[Source:'', ''hybrid_search'', ''|'',
      ''Relevance:'', ''nan]'', ''doc'']"
  by (simp add: str_split_def isspace_def NL_def)

lemma build_nan:
  "build_comprehensive_context (\<lambda>x. ''nan'') (\<lambda>rs. rs) ''hi'' []
     [manual_result\<lparr>similarity := NaN\<rparr>] 3000 =
   ''SEMANTIC SEARCH RESULTS:'' @ NL @ ''[Source: hybrid_search | Relevance: nan]'' @ NL @ ''doc''"
proof -
  have f: "format_source_info (\<lambda>x. ''nan'') (manual_result\<lparr>similarity := NaN\<rparr>) =
      ''[Source: hybrid_search | Relevance: nan]''"
    by (simp add: format_source_info_def manual_result_def)
  have c: "content (manual_result\<lparr>similarity := NaN\<rparr>) = ''doc''"
    by (simp add: manual_result_def)
  have s: "str_split (''[Source: hybrid_search | Relevance: nan]'' @ NL @ ''doc'') =
     [''[Source:'', ''hybrid_search'', ''|'', ''Relevance:'', ''nan]'', ''doc'']"
    by (simp add: str_split_def isspace_def NL_def)
  have a: "add_search_results (\<lambda>x. ''nan'') (real_of_int 3000)
      [manual_result\<lparr>similarity := NaN\<rparr>] 0 [] =
     (39 / 5, [''[Source: hybrid_search | Relevance: nan]'' @ NL @ ''doc''])"
    unfolding add_search_results.simps Let_def f c s by simp
  have srt: "sorted_desc (\<lambda>rs. rs) [manual_result\<lparr>similarity := NaN\<rparr>] =
      [manual_result\<lparr>similarity := NaN\<rparr>]"
    by (simp add: sorted_desc_def)
  have "build_comprehensive_context (\<lambda>x. ''nan'') (\<lambda>rs. rs) ''hi'' []
     [manual_result\<lparr>similarity := NaN\<rparr>] 3000 =
     (if snd (add_search_results (\<lambda>x. ''nan'') (real_of_int 3000)
               (sorted_desc (\<lambda>rs. rs) [manual_result\<lparr>similarity := NaN\<rparr>]) 0 []) \<noteq> []
      then ''SEMANTIC SEARCH RESULTS:'' @ NL @
             str_join (NL @ NL) (snd (add_search_results (\<lambda>x. ''nan'') (real_of_int 3000)
               (sorted_desc (\<lambda>rs. rs) [manual_result\<lparr>similarity := NaN\<rparr>]) 0 []))
      else [])"
    by (rule build_results_only) simp_all
  then show ?thesis
    unfolding srt a by simp
qed

lemma calculate_confidence_nan:
  "calculate_confidence [] [manual_result\<lparr>similarity := NaN\<rparr>] ''hi'' = NaN"
  by (simp add: calculate_confidence_def weights_def fsum_def py_min_def py_max_def fgt_def
      str_split_hi)

text \<open>
  C9. The search result of \<open>nan_pipeline\<close> carries the similarity NaN. The average of the
  similarities and the weighted sum are then NaN, and \<open>min(max(nan, 0.0), 1.0)\<close> is NaN:
  the context returned on the normal path has a confidence that is not between 0 and 1.
\<close>

theorem nan_similarity_confidence:
  "fst (retrieve_context nan_pipeline ''hi'' None None True 15 ()) =
     Inr \<lparr>query = ''hi'', retrieved_chunks = [manual_result\<lparr>similarity := NaN\<rparr>],
          context_text = ''SEMANTIC SEARCH RESULTS:'' @ NL
            @ ''[Source: hybrid_search | Relevance: nan]'' @ NL @ ''doc'',
          source_count = 1, confidence_score = NaN, processing_time = 0,
          context_sources = [''hybrid''], token_count = 11\<rparr> \<and>
   \<not> in_unit (confidence_score
      (projr (fst (retrieve_context nan_pipeline ''hi'' None None True 15 ()))))"
proof -
  have fields: "format_2f nan_pipeline = (\<lambda>x. ''nan'')" "sorted_nan nan_pipeline = (\<lambda>rs. rs)"
    "max_context_tokens nan_pipeline = 3000" "now nan_pipeline = (\<lambda>w. 0)"
    by (simp_all add: nan_pipeline_def)
  have "retrieve_context_body nan_pipeline ''hi'' None None True 15 () =
     (Inr \<lparr>query = ''hi'', retrieved_chunks = [manual_result\<lparr>similarity := NaN\<rparr>],
          context_text = ''SEMANTIC SEARCH RESULTS:'' @ NL
            @ ''[Source: hybrid_search | Relevance: nan]'' @ NL @ ''doc'',
          source_count = 1, confidence_score = NaN, processing_time = 0,
          context_sources = [''hybrid''], token_count = 11\<rparr>, ())"
    unfolding body_returns[of nan_pipeline "''hi''" None None "()" "[]" "()" True 15
        "[manual_result\<lparr>similarity := NaN\<rparr>]" "()", simplified nan_pipeline_def, simplified,
        folded nan_pipeline_def]
      fields build_nan calculate_confidence_nan str_split_nan_context
    by simp
  then show ?thesis
    by (simp add: retrieve_context_def in_unit_def)
qed

subsection \<open>A training text above the budget\<close>

lemma split_from_words:
  "split_from [] (concat (replicate n ''a '') @ s) = replicate n ''a'' @ split_from [] s"
  by (induction n) (simp_all add: isspace_def)

lemma str_split_oversized:
  "str_split (''EXACT TRAINING DATA:'' @ NL @ oversized_training_context) =
     ''EXACT'' # ''TRAINING'' # ''DATA:'' # replicate 2400 ''a''"
proof -
  have a: "split_from [] (''EXACT TRAINING DATA:'' @ NL @ s) =
          ''EXACT'' # ''TRAINING'' # ''DATA:'' # split_from [] s" for s
    by (simp add: isspace_def NL_def)
  have "split_from [] (concat (replicate n ''a '') @ []) = replicate n ''a'' @ split_from [] []" for n
    by (rule split_from_words)
  then have b: "split_from [] (concat (replicate n ''a '')) = replicate n ''a''" for n
    by simp
  show ?thesis
    unfolding str_split_def oversized_training_context_def a b ..
qed

lemma oversized_nonempty: "oversized_training_context \<noteq> []"
  unfolding oversized_training_context_def
  by (simp add: numeral_eq_Suc del: replicate_Suc replicate.simps)

lemma oversized_tokens:
  "real (length (str_split (''EXACT TRAINING DATA:'' @ NL @ oversized_training_context)))
     * (13 / 10) = 31239 / 10"
  unfolding str_split_oversized by simp

lemma str_split_manual_context:
  "str_split (''SEMANTIC SEARCH RESULTS:'' @ NL @ ''[Source: hybrid_search | Relevance: 0.90]''
       @ NL @ ''doc'') =
     [''SEMANTIC'', ''SEARCH'', ''RESULTS:'', ''[Source:'', ''hybrid_search'', ''|'',
      ''Relevance:'', ''0.90]'', ''doc'']"
  by (simp add: str_split_def isspace_def NL_def)

lemma build_oversized:
  "build_comprehensive_context (\<lambda>x. ''0.90'') (\<lambda>rs. rs) ''hours'' oversized_training_context
     [manual_result] 3000 =
   ''SEMANTIC SEARCH RESULTS:'' @ NL @ ''[Source: hybrid_search | Relevance: 0.90]'' @ NL @ ''doc''"
proof -
  have f: "format_source_info (\<lambda>x. ''0.90'') manual_result =
      ''[Source: hybrid_search | Relevance: 0.90]''"
    by (simp add: format_source_info_def manual_result_def)
  have c: "content manual_result = ''doc''"
    by (simp add: manual_result_def)
  have s: "str_split (''[Source: hybrid_search | Relevance: 0.90]'' @ NL @ ''doc'') =
     [''[Source:'', ''hybrid_search'', ''|'', ''Relevance:'', ''0.90]'', ''doc'']"
    by (simp add: str_split_def isspace_def NL_def)
  have a: "add_search_results (\<lambda>x. ''0.90'') (real_of_int 3000) [manual_result] 0 [] =
     (39 / 5, [''[Source: hybrid_search | Relevance: 0.90]'' @ NL @ ''doc''])"
    unfolding add_search_results.simps Let_def f c s by simp
  have srt: "sorted_desc (\<lambda>rs. rs) [manual_result] = [manual_result]"
    by (simp add: sorted_desc_def manual_result_def)
  have fits: "\<not> (oversized_training_context \<noteq> [] \<and>
      real (length (str_split (''EXACT TRAINING DATA:'' @ NL @ oversized_training_context)))
        * (13 / 10) \<le> real_of_int 3000)"
    unfolding oversized_tokens by simp
  have "build_comprehensive_context (\<lambda>x. ''0.90'') (\<lambda>rs. rs) ''hours''
     oversized_training_context [manual_result] 3000 =
     (if snd (add_search_results (\<lambda>x. ''0.90'') (real_of_int 3000)
               (sorted_desc (\<lambda>rs. rs) [manual_result]) 0 []) \<noteq> []
      then ''SEMANTIC SEARCH RESULTS:'' @ NL @
             str_join (NL @ NL) (snd (add_search_results (\<lambda>x. ''0.90'') (real_of_int 3000)
               (sorted_desc (\<lambda>rs. rs) [manual_result]) 0 []))
      else [])"
    using fits by (rule build_results_only) simp_all
  then show ?thesis
    unfolding srt a by simp
qed

lemma str_split_hours: "str_split ''hours'' = [''hours'']"
  by (simp add: str_split_def isspace_def)

lemma calculate_confidence_oversized:
  "calculate_confidence oversized_training_context [manual_result] ''hours'' = Fin (747 / 1000)"
  unfolding calculate_confidence_training[OF oversized_nonempty, of "[manual_result]" "''hours''",
      simplified]
  by (simp add: manual_result_def fsum_def fgt_def py_min_def py_max_def overflow_small
      str_split_hours)

text \<open>
  C6. \<open>oversized_pipeline\<close> holds a training text of 2400 words and one document chunk. The
  section of the training text is estimated at 3123.9 tokens, above the budget of 3000, so
  the guard leaves it out without truncating it: the context returned for the query \<open>hours\<close>
  holds the retrieved passage alone, although its sources list \<open>training_data\<close> and its
  confidence counts the training text with 0.9.
\<close>

theorem oversized_training_dropped:
  "fst (retrieve_context oversized_pipeline ''hours'' None None True 15 ()) =
     Inr \<lparr>query = ''hours'', retrieved_chunks = [manual_result],
          context_text = ''SEMANTIC SEARCH RESULTS:'' @ NL
            @ ''[Source: hybrid_search | Relevance: 0.90]'' @ NL @ ''doc'',
          source_count = 1, confidence_score = Fin (747 / 1000), processing_time = 0,
          context_sources = [''training_data'', ''hybrid''], token_count = 11\<rparr>"
proof -
  have fields: "format_2f oversized_pipeline = (\<lambda>x. ''0.90'')"
    "sorted_nan oversized_pipeline = (\<lambda>rs. rs)"
    "max_context_tokens oversized_pipeline = 3000" "now oversized_pipeline = (\<lambda>w. 0)"
    by (simp_all add: oversized_pipeline_def)
  have "retrieve_context_body oversized_pipeline ''hours'' None None True 15 () =
     (Inr \<lparr>query = ''hours'', retrieved_chunks = [manual_result],
          context_text = ''SEMANTIC SEARCH RESULTS:'' @ NL
            @ ''[Source: hybrid_search | Relevance: 0.90]'' @ NL @ ''doc'',
          source_count = 1, confidence_score = Fin (747 / 1000), processing_time = 0,
          context_sources = [''training_data'', ''hybrid''], token_count = 11\<rparr>, ())"
    unfolding body_returns[of oversized_pipeline "''hours''" None None "()"
        oversized_training_context "()" True 15 "[manual_result]" "()",
        simplified oversized_pipeline_def, simplified, folded oversized_pipeline_def]
      fields build_oversized calculate_confidence_oversized str_split_manual_context
    using oversized_nonempty by simp
  then show ?thesis
    by (simp add: retrieve_context_def)
qed

section \<open>Properties of the vector search service\<close>

subsection \<open>Keyword search\<close>

lemma keyword_results_range:
  "r \<in> set (keyword_results qry ak items) \<Longrightarrow> in_unit (similarity r)"
  by (induction items) (auto simp add: Let_def in_unit_def split: if_splits)

text \<open>
  C5 (as amended). Every result of the keyword search carries the score
  \<open>min(count / 10, 1)\<close>, which lies between 0 and 1.
\<close>

theorem keyword_score_range:
  "\<forall>r\<in>set (fst (keyword_search self qry assistant_key tenant_id limit w)).
     in_unit (similarity r)"
  by (auto simp add: keyword_search_def dest: keyword_results_range
      split: prod.splits sum.splits if_splits)

lemma refund_count:
  "str_count (str_lower ''Refund refund refund: refund, refund or refund.'') (str_lower ''refund'') = 6"
  by code_simp

lemma refund_search:
  "map similarity (fst (keyword_search refund_store ''refund'' None None 30 ())) = [Fin (3 / 5)]"
  by (simp add: keyword_search_def refund_store_def refund_item_def refund_count truthy_def)

text \<open>
  C5 as stated fails: a chunk that holds the query six times scores 0.6, above 0.5.
\<close>

theorem keyword_score_counterexample:
  "map similarity (fst (keyword_search refund_store ''refund'' None None 30 ())) = [Fin (3 / 5)] \<and>
   fgt (Fin (3 / 5)) (Fin (1 / 2))"
  using refund_search by (simp add: fgt_def)

theorem keyword_score_range_witness:
  "fst (keyword_search refund_store ''refund'' None None 30 ()) \<noteq> [] \<and>
   in_unit (similarity (hd (fst (keyword_search refund_store ''refund'' None None 30 ()))))"
proof -
  have ne: "fst (keyword_search refund_store ''refund'' None None 30 ()) \<noteq> []"
    using refund_search by auto
  then have "hd (fst (keyword_search refund_store ''refund'' None None 30 ()))
               \<in> set (fst (keyword_search refund_store ''refund'' None None 30 ()))"
    by (rule hd_in_set)
  with keyword_score_range[of refund_store "''refund''" None None 30 "()"] ne
  show ?thesis by blast
qed

section \<open>Properties of the embedding service\<close>

subsection \<open>The loops of \<open>_process_batch\<close>\<close>

lemma check_cache_self:
  "snd (snd (check_cache self texts c u)) =
     self\<lparr>cache_hits := cache_hits self +
        length (filter (\<lambda>t. embedding_cache self (py_hash self t) \<noteq> None) texts)\<rparr>"
  by (induction texts arbitrary: self c u) (auto simp add: Let_def split: option.splits)

lemma check_cache_uncached:
  "fst (snd (check_cache self texts c u)) =
     u @ filter (\<lambda>t. embedding_cache self (py_hash self t) = None) texts"
  by (induction texts arbitrary: self c u) (auto simp add: Let_def split: option.splits)

lemma check_cache_cached:
  "fst (check_cache self texts c u) t =
     (if t \<in> set texts \<and> embedding_cache self (py_hash self t) \<noteq> None
      then embedding_cache self (py_hash self t) else c t)"
  by (induction texts arbitrary: self c u) (auto simp add: Let_def split: option.splits)

lemma store_new_fst: "fst (store_new self ps n) = n ++ map_of (rev ps)"
proof (induction ps arbitrary: self n)
  case Nil
  then show ?case by simp
next
  case (Cons p ps)
  obtain t e where p: "p = (t, e)"
    by (cases p)
  have "fst (store_new self (p # ps) n) = n(t \<mapsto> e) ++ map_of (rev ps)"
    unfolding p by (simp add: Cons.IH fun_upd_def)
  also have "\<dots> = n ++ map_of (rev (p # ps))"
    unfolding p by (rule ext) (simp add: map_add_def split: option.splits)
  finally show ?case .
qed

lemma fill_zero_lookup:
  "fill_zero texts n t = (if t \<in> set texts then Some zero_vector else n t)"
  by (induction texts arbitrary: n) auto

lemma str_strip_Nil: "str_strip [] = []"
  by (simp add: str_strip_def)

text \<open>
  \<open>_process_batch\<close> in closed form. The texts sent to the backend are the stripped
  non-blank texts whose hash the cache does not hold, in order. Every position gets its
  vector by the contract, from the cache as it was and from the answer of the backend,
  where the last vector returned for a text counts. A failed call returns nothing, and a
  cancelled call leaves the function.
\<close>

lemma process_batch_contract:
  "process_batch self batch w =
     (let valid_texts = map str_strip (filter (\<lambda>t. str_strip t \<noteq> []) batch);
          uncached_texts =
            filter (\<lambda>t. embedding_cache self (py_hash self t) = None) valid_texts;
          self1 = self\<lparr>cache_hits := cache_hits self +
            length (filter (\<lambda>t. embedding_cache self (py_hash self t) \<noteq> None) valid_texts)\<rparr>
      in if uncached_texts = []
         then (Inr (map (contract_vector (embedding_cache self) (py_hash self) Map.empty) batch),
               self1, w)
         else
           (case embeddings_create self uncached_texts w of
              (Inr data, w') \<Rightarrow>
                (Inr (map (contract_vector (embedding_cache self) (py_hash self)
                             (map_of (rev (zip uncached_texts data)))) batch),
                 snd (store_new self1 (zip uncached_texts data) Map.empty), w')
            | (Inl (Exc e), w') \<Rightarrow>
                (Inr (map (contract_vector (embedding_cache self) (py_hash self) Map.empty) batch),
                 self1, w')
            | (Inl (BaseExc b), w') \<Rightarrow> (Inl (BaseExc b), self1, w')))"
proof -
  define valid_texts where "valid_texts = map str_strip (filter (\<lambda>t. str_strip t \<noteq> []) batch)"
  define u where "u = filter (\<lambda>t. embedding_cache self (py_hash self t) = None) valid_texts"
  define self1 where "self1 = self\<lparr>cache_hits := cache_hits self +
      length (filter (\<lambda>t. embedding_cache self (py_hash self t) \<noteq> None) valid_texts)\<rparr>"
  have flt: "filter (\<lambda>t. t \<noteq> [] \<and> str_strip t \<noteq> []) batch = filter (\<lambda>t. str_strip t \<noteq> []) batch"
    by (rule filter_cong) (auto simp add: str_strip_Nil)
  have v: "map str_strip (filter (\<lambda>t. t \<noteq> [] \<and> str_strip t \<noteq> []) batch) = valid_texts"
    unfolding valid_texts_def flt ..
  have mem: "str_strip t \<in> set valid_texts" if "t \<in> set batch" "str_strip t \<noteq> []" for t
    using that unfolding valid_texts_def by auto
  have ne: "[] \<notin> set valid_texts"
    unfolding valid_texts_def by auto
  obtain c u' s' where cc: "check_cache self valid_texts Map.empty [] = (c, u', s')"
    by (cases "check_cache self valid_texts Map.empty []")
  have c: "c t = (if t \<in> set valid_texts \<and> embedding_cache self (py_hash self t) \<noteq> None
             then embedding_cache self (py_hash self t) else None)" for t
    using check_cache_cached[of self valid_texts Map.empty "[]" t] cc by simp
  have u': "u' = u"
    using check_cache_uncached[of self valid_texts Map.empty "[]"] cc unfolding u_def by simp
  have s': "s' = self1"
    using check_cache_self[of self valid_texts Map.empty "[]"] cc unfolding self1_def by simp
  have create: "embeddings_create self1 = embeddings_create self"
    unfolding self1_def by simp
  have comb: "combine c n t = contract_vector (embedding_cache self) (py_hash self) r t"
    if t: "t \<in> set batch" and n: "n [] = None"
      and r: "\<And>x. x \<in> set valid_texts \<Longrightarrow> embedding_cache self (py_hash self x) = None \<Longrightarrow>
                 (case n x of Some v \<Rightarrow> v | None \<Rightarrow> zero_vector)
                   = (case r x of Some v \<Rightarrow> v | None \<Rightarrow> zero_vector)" for t n r
  proof (cases "str_strip t = []")
    case True
    then show ?thesis
      using n c[of "[]"] ne by (simp add: combine_def contract_vector_def)
  next
    case False
    then have tne: "t \<noteq> []"
      by (auto simp add: str_strip_Nil)
    have m: "str_strip t \<in> set valid_texts"
      using mem[OF t False] .
    show ?thesis
    proof (cases "embedding_cache self (py_hash self (str_strip t))")
      case (Some e)
      then show ?thesis
        using False tne m c[of "str_strip t"] by (simp add: combine_def contract_vector_def)
    next
      case None
      then show ?thesis
        using False tne m c[of "str_strip t"] r[OF m None]
        by (simp add: combine_def contract_vector_def)
    qed
  qed
  have zero: "replicate (length batch) zero_vector =
      map (contract_vector (embedding_cache self) (py_hash self) Map.empty) batch"
    if "valid_texts = []"
  proof -
    have "\<forall>t\<in>set batch. str_strip t = []"
      using that mem by auto
    then show ?thesis
      by (simp add: map_replicate_const[symmetric] contract_vector_def cong: map_cong)
  qed
  have self0: "self1 = self" if "valid_texts = []"
    using that unfolding self1_def by simp
  have filled: "(case fill_zero u Map.empty x of Some v \<Rightarrow> v | None \<Rightarrow> zero_vector)
      = (case Map.empty x of Some v \<Rightarrow> v | None \<Rightarrow> zero_vector)" for x
    by (simp add: fill_zero_lookup)
  have filled0: "fill_zero u Map.empty [] = None"
    using ne unfolding u_def by (simp add: fill_zero_lookup)
  have stored0: "fst (store_new self1 (zip u data) Map.empty) [] = None" for data
  proof -
    have "[] \<notin> fst ` set (zip u data)"
      using ne unfolding u_def by (auto dest: set_zip_leftD)
    then have "[] \<notin> fst ` set (rev (zip u data))"
      by simp
    then have "map_of (rev (zip u data)) [] = None"
      by (simp only: map_of_eq_None_iff not_False_eq_True)
    then show ?thesis
      by (simp add: store_new_fst)
  qed
  show ?thesis
    unfolding Let_def valid_texts_def[symmetric] u_def[symmetric] self1_def[symmetric]
  proof (cases "valid_texts = []")
    case True
    then have "u = []"
      unfolding u_def by simp
    then show "process_batch self batch w =
      (if u = []
       then (Inr (map (contract_vector (embedding_cache self) (py_hash self) Map.empty) batch),
             self1, w)
       else (case embeddings_create self u w of
              (Inr data, w') \<Rightarrow>
                (Inr (map (contract_vector (embedding_cache self) (py_hash self)
                             (map_of (rev (zip u data)))) batch),
                 snd (store_new self1 (zip u data) Map.empty), w')
            | (Inl (Exc e), w') \<Rightarrow>
                (Inr (map (contract_vector (embedding_cache self) (py_hash self) Map.empty) batch),
                 self1, w')
            | (Inl (BaseExc b), w') \<Rightarrow> (Inl (BaseExc b), self1, w')))"
      using True zero self0 by (simp add: process_batch_def v)
  next
    case False
    show "process_batch self batch w =
      (if u = []
       then (Inr (map (contract_vector (embedding_cache self) (py_hash self) Map.empty) batch),
             self1, w)
       else (case embeddings_create self u w of
              (Inr data, w') \<Rightarrow>
                (Inr (map (contract_vector (embedding_cache self) (py_hash self)
                             (map_of (rev (zip u data)))) batch),
                 snd (store_new self1 (zip u data) Map.empty), w')
            | (Inl (Exc e), w') \<Rightarrow>
                (Inr (map (contract_vector (embedding_cache self) (py_hash self) Map.empty) batch),
                 self1, w')
            | (Inl (BaseExc b), w') \<Rightarrow> (Inl (BaseExc b), self1, w')))"
    proof (cases "u = []")
      case True
      have "map (combine c Map.empty) batch =
          map (contract_vector (embedding_cache self) (py_hash self) Map.empty) batch"
        by (rule map_cong[OF refl]) (rule comb, simp_all)
      then show ?thesis
        using False True cc u' s' by (simp add: process_batch_def v)
    next
      case unc: False
      obtain r w' where r: "embeddings_create self u w = (r, w')"
        by (cases "embeddings_create self u w")
      show ?thesis
      proof (cases r)
        case (Inr data)
        obtain n self2 where n: "store_new self1 (zip u data) Map.empty = (n, self2)"
          by (cases "store_new self1 (zip u data) Map.empty")
        have n0: "n [] = None"
          using stored0[of data] n by simp
        have nn: "n = map_of (rev (zip u data))"
          using store_new_fst[of self1 "zip u data" Map.empty] n by simp
        have "map (combine c n) batch =
            map (contract_vector (embedding_cache self) (py_hash self)
                   (map_of (rev (zip u data)))) batch"
          by (rule map_cong[OF refl]) (rule comb, simp_all add: n0 nn[symmetric])
        then show ?thesis
          using False unc cc u' s' r Inr n create by (simp add: process_batch_def v)
      next
        case (Inl x)
        show ?thesis
        proof (cases x)
          case (Exc e)
          have "map (combine c (fill_zero u Map.empty)) batch =
              map (contract_vector (embedding_cache self) (py_hash self) Map.empty) batch"
            by (rule map_cong[OF refl]) (rule comb, simp_all add: filled0 filled)
          then show ?thesis
            using False unc cc u' s' r Inl Exc create by (simp add: process_batch_def v)
        next
          case (BaseExc b)
          then show ?thesis
            using False unc cc u' s' r Inl create by (simp add: process_batch_def v)
        qed
      qed
    qed
  qed
qed

lemma process_batch_no_exception: "fst (process_batch self batch w) \<noteq> Inl (Exc e)"
  by (simp add: process_batch_contract Let_def split: prod.splits sum.splits raised.splits)

lemma contract_vector_blank:
  "str_strip t = [] \<Longrightarrow> contract_vector cache hash returned t = zero_vector"
  by (simp add: contract_vector_def)

lemma process_batch_returns:
  assumes "process_batch self batch w = (Inr vs, s1, w1)"
  shows "length vs = length batch \<and>
         (\<forall>i<length batch. str_strip (batch ! i) = [] \<longrightarrow> vs ! i = zero_vector)"
proof -
  have "\<exists>r. vs = map (contract_vector (embedding_cache self) (py_hash self) r) batch"
    using assms
    by (auto simp add: process_batch_contract Let_def
        split: prod.splits sum.splits raised.splits if_splits)
  then show ?thesis
    by (auto simp add: contract_vector_blank)
qed

subsection \<open>The loop over the batches\<close>

lemma batches_Nil: "batches self n [] w = (Inr [], self, w)"
  by (subst batches.simps) simp

lemma batches_step:
  assumes "texts \<noteq> []" and "0 < n"
  shows "batches self n texts w =
     (case process_batch self (take n texts) w of
        (Inl e, self1, w1) \<Rightarrow> (Inl e, self1, w1)
      | (Inr batch_embeddings, self1, w1) \<Rightarrow>
          (case (if drop n texts \<noteq> [] then asyncio_sleep self1 w1 else (None, w1)) of
             (Some b, w2) \<Rightarrow> (Inl (BaseExc b), self1, w2)
           | (None, w2) \<Rightarrow>
               (case batches self1 n (drop n texts) w2 of
                  (Inl e, self2, w3) \<Rightarrow> (Inl e, self2, w3)
                | (Inr embeddings, self2, w3) \<Rightarrow>
                    (Inr (batch_embeddings @ embeddings), self2, w3))))"
  using assms by (subst batches.simps) simp

text \<open>A list that fits in one batch is answered by one call of \<open>_process_batch\<close>.\<close>

lemma batches_single:
  assumes "texts \<noteq> []" and "0 < n" and "length texts \<le> n"
  shows "batches self n texts w = process_batch self texts w"
  using assms
  by (simp add: batches_step batches_Nil split: prod.splits sum.splits)

text \<open>
  A longer list is answered batch by batch: the first batch as it would be on its own,
  then, after the pause, the remaining texts as they would be on their own by the service
  the first batch has left.
\<close>

lemma batches_split:
  assumes "0 < n" and "n < length texts"
  shows "batches self n texts w =
     (case batches self n (take n texts) w of
        (Inl x, self1, w1) \<Rightarrow> (Inl x, self1, w1)
      | (Inr first, self1, w1) \<Rightarrow>
          (case asyncio_sleep self1 w1 of
             (Some b, w2) \<Rightarrow> (Inl (BaseExc b), self1, w2)
           | (None, w2) \<Rightarrow>
               (case batches self1 n (drop n texts) w2 of
                  (Inl x, self2, w3) \<Rightarrow> (Inl x, self2, w3)
                | (Inr rest, self2, w3) \<Rightarrow> (Inr (first @ rest), self2, w3))))"
proof -
  have ne: "texts \<noteq> []" "take n texts \<noteq> []" "drop n texts \<noteq> []"
    using assms by auto
  have "batches self n (take n texts) w = process_batch self (take n texts) w"
    using ne(2) assms by (intro batches_single) simp_all
  then show ?thesis
    using ne(3) by (simp add: batches_step[OF ne(1) assms(1)] split: prod.splits sum.splits)
qed

lemma batches_no_exception: "fst (batches self n texts w) \<noteq> Inl (Exc e)"
proof (induction "length texts" arbitrary: self texts w rule: less_induct)
  case less
  show ?case
  proof (cases "texts = [] \<or> n = 0")
    case True
    then show ?thesis
      by (subst batches.simps) auto
  next
    case False
    then have shorter: "length (drop n texts) < length texts"
      by simp
    obtain r s1 w1 where p: "process_batch self (take n texts) w = (r, s1, w1)"
      by (cases "process_batch self (take n texts) w")
    have r: "r \<noteq> Inl (Exc e)"
      using process_batch_no_exception[of self "take n texts" w e] p by simp
    obtain q w2 where sl:
      "(if drop n texts \<noteq> [] then asyncio_sleep s1 w1 else (None, w1)) = (q, w2)"
      by (cases "if drop n texts \<noteq> [] then asyncio_sleep s1 w1 else (None, w1)")
    obtain r' s2 w3 where b: "batches s1 n (drop n texts) w2 = (r', s2, w3)"
      by (cases "batches s1 n (drop n texts) w2")
    have r': "r' \<noteq> Inl (Exc e)"
      using less.hyps[OF shorter, of s1 w2] b by simp
    show ?thesis
      using False r r' p sl b
      by (subst batches.simps) (auto split: sum.splits option.splits)
  qed
qed

lemma batches_returns:
  assumes "batches self n texts w = (Inr vs, s', w')" and "0 < n"
  shows "length vs = length texts \<and>
         (\<forall>i<length texts. str_strip (texts ! i) = [] \<longrightarrow> vs ! i = zero_vector)"
  using assms(1)
proof (induction "length texts" arbitrary: self texts w vs s' w' rule: less_induct)
  case less
  show ?case
  proof (cases "texts = []")
    case True
    then show ?thesis
      using less.prems by (simp add: batches_Nil)
  next
    case False
    then have shorter: "length (drop n texts) < length texts"
      using assms(2) by simp
    obtain r s1 w1 where p: "process_batch self (take n texts) w = (r, s1, w1)"
      by (cases "process_batch self (take n texts) w")
    obtain q w2 where sl:
      "(if drop n texts \<noteq> [] then asyncio_sleep s1 w1 else (None, w1)) = (q, w2)"
      by (cases "if drop n texts \<noteq> [] then asyncio_sleep s1 w1 else (None, w1)")
    obtain r' s2 w3 where b: "batches s1 n (drop n texts) w2 = (r', s2, w3)"
      by (cases "batches s1 n (drop n texts) w2")
    from less.prems obtain first rest where
      r: "r = Inr first" and r': "r' = Inr rest" and vs: "vs = first @ rest"
      unfolding batches_step[OF False assms(2)] p prod.case sl b
      by (auto split: sum.splits option.splits)
    have f: "length first = length (take n texts)"
      "\<forall>i<length (take n texts). str_strip (take n texts ! i) = [] \<longrightarrow> first ! i = zero_vector"
      using process_batch_returns[OF p[unfolded r]] by simp_all
    have g: "length rest = length (drop n texts)"
      "\<forall>i<length (drop n texts). str_strip (drop n texts ! i) = [] \<longrightarrow> rest ! i = zero_vector"
      using less.hyps[OF shorter b[unfolded r']] by simp_all
    have len: "length vs = length texts"
      using f(1) g(1) vs by simp
    have "vs ! i = zero_vector" if i: "i < length texts" and z: "str_strip (texts ! i) = []" for i
    proof (cases "i < n")
      case True
      then have "first ! i = zero_vector"
        using f(2) i z by simp
      then show ?thesis
        using vs f(1) True i by (simp add: nth_append)
    next
      case False
      then have "rest ! (i - n) = zero_vector"
        using g(2) i z by simp
      then show ?thesis
        using vs f(1) False i by (simp add: nth_append min_def)
    qed
    then show ?thesis
      using len by simp
  qed
qed

subsection \<open>\<open>generate_batch_embeddings\<close>\<close>

lemma generate_batches:
  assumes "batch_size = None \<or> (\<exists>b. batch_size = Some b \<and> 0 \<le> b)"
    and "n = nat (case batch_size of None \<Rightarrow> max_batch_size
                   | Some b \<Rightarrow> if b = 0 then max_batch_size else b)"
  shows "0 < n" and "generate_batch_embeddings self texts batch_size w = batches self n texts w"
proof -
  define m where "m = (case batch_size of None \<Rightarrow> max_batch_size
                          | Some b \<Rightarrow> if b = 0 then max_batch_size else b)"
  have m: "0 < m"
    using assms(1) unfolding m_def by (auto simp add: max_batch_size_def)
  then show "0 < n"
    unfolding assms(2) m_def[symmetric] by simp
  show "generate_batch_embeddings self texts batch_size w = batches self n texts w"
    using m unfolding assms(2) m_def[symmetric]
    by (cases "texts = []")
      (simp_all add: generate_batch_embeddings_def m_def[symmetric] batches_Nil)
qed

text \<open>
  C7 (as amended). For a batch size that is absent or not negative, where 0 stands for the
  default, \<open>generate_batch_embeddings\<close> lets no \<open>Exception\<close> reach the caller, and when it
  returns it returns one vector per input text, the zero vector at the position of every
  empty or whitespace text. The first batch on its own is answered position by position
  according to the contract: only the texts the cache does not hold are sent to the backend,
  and none when there is no such text; when the call fails, these texts get the zero vector,
  the cached texts keep their cached vectors, and the cache is left as it was; when the call
  or the pause is cancelled, the exception reaches the caller. A list longer than one batch
  is answered as its first batch on its own, followed by its remaining texts on their own,
  embedded by the service as the first batch has left it.
\<close>

theorem generate_batch_embeddings_contract:
  assumes "batch_size = None \<or> (\<exists>b. batch_size = Some b \<and> 0 \<le> b)"
    and "n = nat (case batch_size of None \<Rightarrow> max_batch_size
                   | Some b \<Rightarrow> if b = 0 then max_batch_size else b)"
  shows "fst (generate_batch_embeddings self texts batch_size w) \<noteq> Inl (Exc e) \<and>
     (\<forall>vs. fst (generate_batch_embeddings self texts batch_size w) = Inr vs \<longrightarrow>
        length vs = length texts \<and>
        (\<forall>i<length texts. str_strip (texts ! i) = [] \<longrightarrow> vs ! i = zero_vector)) \<and>
     (texts \<noteq> [] \<longrightarrow>
        generate_batch_embeddings self (take n texts) batch_size w =
          (let batch = take n texts;
               valid_texts = map str_strip (filter (\<lambda>t. str_strip t \<noteq> []) batch);
               uncached_texts =
                 filter (\<lambda>t. embedding_cache self (py_hash self t) = None) valid_texts;
               self1 = self\<lparr>cache_hits := cache_hits self +
                 length (filter (\<lambda>t. embedding_cache self (py_hash self t) \<noteq> None) valid_texts)\<rparr>
           in if uncached_texts = []
              then (Inr (map (contract_vector (embedding_cache self) (py_hash self) Map.empty)
                           batch), self1, w)
              else
                (case embeddings_create self uncached_texts w of
                   (Inr data, w') \<Rightarrow>
                     (Inr (map (contract_vector (embedding_cache self) (py_hash self)
                                  (map_of (rev (zip uncached_texts data)))) batch),
                      snd (store_new self1 (zip uncached_texts data) Map.empty), w')
                 | (Inl (Exc e), w') \<Rightarrow>
                     (Inr (map (contract_vector (embedding_cache self) (py_hash self) Map.empty)
                             batch), self1, w')
                 | (Inl (BaseExc b), w') \<Rightarrow> (Inl (BaseExc b), self1, w')))) \<and>
     (n < length texts \<longrightarrow>
        generate_batch_embeddings self texts batch_size w =
          (case generate_batch_embeddings self (take n texts) batch_size w of
             (Inl x, self1, w1) \<Rightarrow> (Inl x, self1, w1)
           | (Inr first, self1, w1) \<Rightarrow>
               (case asyncio_sleep self1 w1 of
                  (Some b, w2) \<Rightarrow> (Inl (BaseExc b), self1, w2)
                | (None, w2) \<Rightarrow>
                    (case generate_batch_embeddings self1 (drop n texts) batch_size w2 of
                       (Inl x, self2, w3) \<Rightarrow> (Inl x, self2, w3)
                     | (Inr rest, self2, w3) \<Rightarrow> (Inr (first @ rest), self2, w3)))))"
proof -
  note g = generate_batches[OF assms]
  have a: "fst (generate_batch_embeddings self texts batch_size w) \<noteq> Inl (Exc e)"
    unfolding g(2) by (rule batches_no_exception)
  have b: "\<forall>vs. fst (generate_batch_embeddings self texts batch_size w) = Inr vs \<longrightarrow>
        length vs = length texts \<and>
        (\<forall>i<length texts. str_strip (texts ! i) = [] \<longrightarrow> vs ! i = zero_vector)"
  proof (intro allI impI)
    fix vs
    assume "fst (generate_batch_embeddings self texts batch_size w) = Inr vs"
    then have "fst (batches self n texts w) = Inr vs"
      unfolding g(2) .
    then obtain s' w' where "batches self n texts w = (Inr vs, s', w')"
      by (cases "batches self n texts w") auto
    then show "length vs = length texts \<and>
        (\<forall>i<length texts. str_strip (texts ! i) = [] \<longrightarrow> vs ! i = zero_vector)"
      using g(1) by (rule batches_returns)
  qed
  have c: "texts \<noteq> [] \<longrightarrow>
        generate_batch_embeddings self (take n texts) batch_size w =
          (let batch = take n texts;
               valid_texts = map str_strip (filter (\<lambda>t. str_strip t \<noteq> []) batch);
               uncached_texts =
                 filter (\<lambda>t. embedding_cache self (py_hash self t) = None) valid_texts;
               self1 = self\<lparr>cache_hits := cache_hits self +
                 length (filter (\<lambda>t. embedding_cache self (py_hash self t) \<noteq> None) valid_texts)\<rparr>
           in if uncached_texts = []
              then (Inr (map (contract_vector (embedding_cache self) (py_hash self) Map.empty)
                           batch), self1, w)
              else
                (case embeddings_create self uncached_texts w of
                   (Inr data, w') \<Rightarrow>
                     (Inr (map (contract_vector (embedding_cache self) (py_hash self)
                                  (map_of (rev (zip uncached_texts data)))) batch),
                      snd (store_new self1 (zip uncached_texts data) Map.empty), w')
                 | (Inl (Exc e), w') \<Rightarrow>
                     (Inr (map (contract_vector (embedding_cache self) (py_hash self) Map.empty)
                             batch), self1, w')
                 | (Inl (BaseExc b), w') \<Rightarrow> (Inl (BaseExc b), self1, w')))"
  proof
    assume "texts \<noteq> []"
    then have "generate_batch_embeddings self (take n texts) batch_size w =
        process_batch self (take n texts) w"
      unfolding g(2) using g(1) by (intro batches_single) simp_all
    then show "generate_batch_embeddings self (take n texts) batch_size w =
          (let batch = take n texts;
               valid_texts = map str_strip (filter (\<lambda>t. str_strip t \<noteq> []) batch);
               uncached_texts =
                 filter (\<lambda>t. embedding_cache self (py_hash self t) = None) valid_texts;
               self1 = self\<lparr>cache_hits := cache_hits self +
                 length (filter (\<lambda>t. embedding_cache self (py_hash self t) \<noteq> None) valid_texts)\<rparr>
           in if uncached_texts = []
              then (Inr (map (contract_vector (embedding_cache self) (py_hash self) Map.empty)
                           batch), self1, w)
              else
                (case embeddings_create self uncached_texts w of
                   (Inr data, w') \<Rightarrow>
                     (Inr (map (contract_vector (embedding_cache self) (py_hash self)
                                  (map_of (rev (zip uncached_texts data)))) batch),
                      snd (store_new self1 (zip uncached_texts data) Map.empty), w')
                 | (Inl (Exc e), w') \<Rightarrow>
                     (Inr (map (contract_vector (embedding_cache self) (py_hash self) Map.empty)
                             batch), self1, w')
                 | (Inl (BaseExc b), w') \<Rightarrow> (Inl (BaseExc b), self1, w')))"
      unfolding process_batch_contract Let_def .
  qed
  have d: "n < length texts \<longrightarrow>
        generate_batch_embeddings self texts batch_size w =
          (case generate_batch_embeddings self (take n texts) batch_size w of
             (Inl x, self1, w1) \<Rightarrow> (Inl x, self1, w1)
           | (Inr first, self1, w1) \<Rightarrow>
               (case asyncio_sleep self1 w1 of
                  (Some b, w2) \<Rightarrow> (Inl (BaseExc b), self1, w2)
                | (None, w2) \<Rightarrow>
                    (case generate_batch_embeddings self1 (drop n texts) batch_size w2 of
                       (Inl x, self2, w3) \<Rightarrow> (Inl x, self2, w3)
                     | (Inr rest, self2, w3) \<Rightarrow> (Inr (first @ rest), self2, w3))))"
  proof
    assume "n < length texts"
    with g(1) show "generate_batch_embeddings self texts batch_size w =
          (case generate_batch_embeddings self (take n texts) batch_size w of
             (Inl x, self1, w1) \<Rightarrow> (Inl x, self1, w1)
           | (Inr first, self1, w1) \<Rightarrow>
               (case asyncio_sleep self1 w1 of
                  (Some b, w2) \<Rightarrow> (Inl (BaseExc b), self1, w2)
                | (None, w2) \<Rightarrow>
                    (case generate_batch_embeddings self1 (drop n texts) batch_size w2 of
                       (Inl x, self2, w3) \<Rightarrow> (Inl x, self2, w3)
                     | (Inr rest, self2, w3) \<Rightarrow> (Inr (first @ rest), self2, w3))))"
      unfolding g(2) by (rule batches_split)
  qed
  show ?thesis
    by (intro conjI) (fact a b c d)+
qed

lemma strip_hello: "str_strip ''hello'' = ''hello''"
  by (simp add: str_strip_def isspace_def)

lemma strip_goodbye: "str_strip ''goodbye'' = ''goodbye''"
  by (simp add: str_strip_def isspace_def)

lemma strip_blank: "str_strip ''  '' = []"
  by (simp add: str_strip_def isspace_def)

theorem generate_batch_embeddings_contract_witness:
  "generate_batch_embeddings outage_service [''hello'', ''goodbye'', ''  ''] (Some 2) () =
     (Inr [replicate dimensions 1, zero_vector, zero_vector],
      outage_service\<lparr>cache_hits := 1\<rparr>, ()) \<and>
   fst (generate_batch_embeddings length_service [''hello'', ''goodbye'', ''  ''] (Some 2) ()) =
     Inr [replicate dimensions 1, replicate dimensions 7, zero_vector]"
proof -
  have bs: "Some (2::int) = None \<or> (\<exists>b. Some (2::int) = Some b \<and> 0 \<le> b)"
    by simp
  have n: "(2::nat) = nat (case Some (2::int) of None \<Rightarrow> max_batch_size
                            | Some b \<Rightarrow> if b = 0 then max_batch_size else b)"
    by simp
  note T = generate_batch_embeddings_contract[OF bs n]
  note first = T[THEN conjunct2, THEN conjunct2, THEN conjunct1, rule_format]
  note split = T[THEN conjunct2, THEN conjunct2, THEN conjunct2, rule_format]
  have lt: "2 < length [''hello'', ''goodbye'', ''  '']"
    by simp
  have td: "take 2 [''hello'', ''goodbye'', ''  ''] = [''hello'', ''goodbye'']"
    "drop 2 [''hello'', ''goodbye'', ''  ''] = [''  '']"
    by simp_all
  have o1: "generate_batch_embeddings outage_service [''hello'', ''goodbye''] (Some 2) () =
      (Inr [replicate dimensions 1, zero_vector], outage_service\<lparr>cache_hits := 1\<rparr>, ())"
    using first[of "[''hello'', ''goodbye'', ''  '']" outage_service "()"]
    by (simp add: outage_service_def strip_hello strip_goodbye contract_vector_def)
  have o2: "generate_batch_embeddings (outage_service\<lparr>cache_hits := 1\<rparr>) [''  ''] (Some 2) () =
      (Inr [zero_vector], outage_service\<lparr>cache_hits := 1\<rparr>, ())"
    using first[of "[''  '']" "outage_service\<lparr>cache_hits := 1\<rparr>" "()"]
    by (simp add: outage_service_def strip_blank contract_vector_def)
  have os: "asyncio_sleep (outage_service\<lparr>cache_hits := 1\<rparr>) () = (None, ())"
    by (simp add: outage_service_def)
  have o: "generate_batch_embeddings outage_service [''hello'', ''goodbye'', ''  ''] (Some 2) () =
     (Inr [replicate dimensions 1, zero_vector, zero_vector],
      outage_service\<lparr>cache_hits := 1\<rparr>, ())"
    unfolding split[of "[''hello'', ''goodbye'', ''  '']" outage_service "()", OF lt]
      td o1 prod.case sum.case os option.case o2
    by simp
  define s1 where "s1 = length_service\<lparr>cache_hits := 1,
      embedding_cache := [5 \<mapsto> replicate dimensions 1, 7 \<mapsto> replicate dimensions 7],
      cache_misses := 2\<rparr>"
  have l1: "generate_batch_embeddings length_service [''hello'', ''goodbye''] (Some 2) () =
      (Inr [replicate dimensions 1, replicate dimensions 7], s1, ())"
    using first[of "[''hello'', ''goodbye'', ''  '']" length_service "()"]
    by (simp add: length_service_def s1_def strip_hello strip_goodbye contract_vector_def)
  have l2: "fst (generate_batch_embeddings s1 [''  ''] (Some 2) ()) = Inr [zero_vector]"
    using first[of "[''  '']" s1 "()"]
    by (simp add: strip_blank contract_vector_def)
  have ls: "asyncio_sleep s1 () = (None, ())"
    by (simp add: length_service_def s1_def)
  have l: "fst (generate_batch_embeddings length_service [''hello'', ''goodbye'', ''  ''] (Some 2) ()) =
     Inr [replicate dimensions 1, replicate dimensions 7, zero_vector]"
  proof -
    obtain s2 where "generate_batch_embeddings s1 [''  ''] (Some 2) () = (Inr [zero_vector], s2, ())"
      using l2 by (cases "generate_batch_embeddings s1 [''  ''] (Some 2) ()") auto
    then show ?thesis
      unfolding split[of "[''hello'', ''goodbye'', ''  '']" length_service "()", OF lt]
        td l1 prod.case sum.case ls option.case
      by simp
  qed
  from o l show ?thesis ..
qed

lemma generate_single:
  assumes "batch_size = None \<or> (\<exists>b. batch_size = Some b \<and> 0 \<le> b)"
    and "texts \<noteq> []"
    and "length texts \<le> nat (case batch_size of None \<Rightarrow> max_batch_size
                               | Some b \<Rightarrow> if b = 0 then max_batch_size else b)"
  shows "generate_batch_embeddings self texts batch_size w = process_batch self texts w"
  unfolding generate_batches(2)[OF assms(1) refl]
  using assms(2) generate_batches(1)[OF assms(1) refl] assms(3) by (rule batches_single)

text \<open>
  C7 as stated fails three times. With the backend down, a text of the failed batch that the
  cache holds is answered with its cached vector, not the zero vector. A negative batch size
  makes the range of batch starts empty, so no vector is returned for a non-empty input.
  And a request cancelled while the backend is awaited raises \<open>CancelledError\<close>.
\<close>

theorem cached_text_counterexample:
  "fst (generate_batch_embeddings outage_service [''hello'', ''goodbye''] None ()) =
     Inr [replicate dimensions 1, zero_vector] \<and>
   replicate dimensions (1::real) \<noteq> zero_vector \<and>
   fst (generate_batch_embeddings outage_service [''hello''] (Some (- 1)) ()) = Inr [] \<and>
   fst (generate_batch_embeddings cancelled_service [''goodbye''] None ()) =
     Inl (BaseExc ''CancelledError'')"
proof -
  have "generate_batch_embeddings outage_service [''hello'', ''goodbye''] None () =
      process_batch outage_service [''hello'', ''goodbye''] ()"
    by (rule generate_single) (simp_all add: max_batch_size_def)
  then have a: "fst (generate_batch_embeddings outage_service [''hello'', ''goodbye''] None ()) =
     Inr [replicate dimensions 1, zero_vector]"
    by (simp add: process_batch_contract outage_service_def strip_hello strip_goodbye
        contract_vector_def)
  have b: "replicate dimensions (1::real) \<noteq> zero_vector"
    by (simp add: zero_vector_def dimensions_def)
  have c: "fst (generate_batch_embeddings outage_service [''hello''] (Some (- 1)) ()) = Inr []"
    by (simp add: generate_batch_embeddings_def)
  have "generate_batch_embeddings cancelled_service [''goodbye''] None () =
      process_batch cancelled_service [''goodbye''] ()"
    by (rule generate_single) (simp_all add: max_batch_size_def)
  then have d: "fst (generate_batch_embeddings cancelled_service [''goodbye''] None ()) =
     Inl (BaseExc ''CancelledError'')"
    by (simp add: process_batch_contract cancelled_service_def strip_goodbye)
  from a b c d show ?thesis by blast
qed

section \<open>Properties of the chunk processor\<close>

subsection \<open>Chunk indices\<close>

lemma process_chunks_indices:
  "sorted_wrt (<) (map chunk_index (process_chunks self md i raws)) \<and>
   (\<forall>c\<in>set (process_chunks self md i raws). i \<le> chunk_index c)"
proof (induction raws arbitrary: i)
  case Nil
  then show ?case by simp
next
  case (Cons r raws)
  have "\<forall>c\<in>set (process_chunks self md (Suc i) raws). i < chunk_index c"
    using Cons.IH[of "Suc i"] by auto
  then show ?case
    using Cons.IH[of "Suc i"] by (auto simp add: Let_def)
qed

lemma smart_chunk_document_sorted:
  "sorted_wrt (<) (map chunk_index (smart_chunk_document self t md))"
  by (simp add: smart_chunk_document_def Let_def process_chunks_indices)

subsection \<open>A document of one-letter words\<close>

lemma spaced_words_Suc: "spaced_words (Suc n) = '' x'' @ spaced_words n"
  by (simp add: spaced_words_def)

lemma spaced_words_0: "spaced_words 0 = []"
  by (simp add: spaced_words_def)

lemma set_spaced_words: "set (spaced_words n) \<subseteq> {CHR '' '', CHR ''x''}"
  by (induction n) (auto simp add: spaced_words_Suc spaced_words_0)

lemma last_spaced_words: "last (a @ spaced_words n) = (if n = 0 then last a else CHR ''x'')"
proof (induction n arbitrary: a)
  case 0
  then show ?case by (simp add: spaced_words_0)
next
  case (Suc n)
  have "last ((a @ '' x'') @ spaced_words n) = (if n = 0 then last (a @ '' x'') else CHR ''x'')"
    by (rule Suc.IH)
  then show ?case by (simp add: spaced_words_Suc)
qed

lemma sub_whitespace_spaced_words: "sub_whitespace False (spaced_words n) = spaced_words n"
  by (induction n) (simp_all add: spaced_words_Suc spaced_words_0 isspace_def)

lemma split_from_spaced_words: "split_from ''x'' (spaced_words n) = replicate (Suc n) ''x''"
  by (induction n) (simp_all add: spaced_words_Suc spaced_words_0 isspace_def)

subsection \<open>Text that the cleaning and the patterns leave alone\<close>

lemma str_strip_id:
  assumes "s \<noteq> []" and "\<not> isspace (hd s)" and "\<not> isspace (last s)"
  shows "str_strip s = s"
proof -
  have "dropWhile isspace s = s"
    using assms by (cases s) simp_all
  moreover have "dropWhile isspace (rev s) = rev s"
    using assms by (cases "rev s") (simp_all add: last_rev[symmetric] hd_rev)
  ultimately show ?thesis by (simp add: str_strip_def)
qed

lemma sub_line_breaks_id:
  "CHR 0x0D \<notin> set s \<Longrightarrow> CHR 0x0A \<notin> set s \<Longrightarrow> sub_line_breaks b s = s"
  by (induction s arbitrary: b) auto

lemma sub_runs_id: "x \<notin> set s \<Longrightarrow> sub_runs x n s = s"
  by (induction s arbitrary: n) auto

lemma sub_quotes_id: "sub_quotes q s = s"
  by (simp add: sub_quotes_def map_idI)

lemma finditer_from_anchored:
  assumes anchored: "\<And>c t. c \<noteq> CHR 0x0A \<Longrightarrow> m (Some c) t = None"
  shows "CHR 0x0A \<notin> set s \<Longrightarrow> c \<noteq> CHR 0x0A \<Longrightarrow> finditer_from m (Some c) pos skip s = []"
  by (induction s arbitrary: c pos skip) (auto simp add: anchored)

lemma findall_count_anchored:
  assumes anchored: "\<And>c t. c \<noteq> CHR 0x0A \<Longrightarrow> m (Some c) t = None"
    and "CHR 0x0A \<notin> set s"
  shows "findall_count m s \<le> 1"
proof (cases s)
  case Nil
  then show ?thesis by (simp add: findall_count_def finditer_def)
next
  case (Cons c cs)
  then have "finditer_from m (Some c) (Suc 0) k cs = []" for k
    using assms(2) finditer_from_anchored[of m cs c "Suc 0" k, OF anchored] by auto
  then show ?thesis
    using Cons by (auto simp add: findall_count_def finditer_def split: option.splits)
qed

lemma header_pattern_anchored: "c \<noteq> CHR 0x0A \<Longrightarrow> header_pattern (Some c) t = None"
  by (simp add: header_pattern_def line_start_def Let_def)

lemma list_pattern_anchored: "c \<noteq> CHR 0x0A \<Longrightarrow> list_pattern (Some c) t = None"
  by (simp add: list_pattern_def line_start_def Let_def split: list.splits)

lemma dialogue_marker_anchored: "c \<noteq> CHR 0x0A \<Longrightarrow> dialogue_marker (Some c) t = None"
  by (simp add: dialogue_marker_def line_start_def Let_def split: list.splits)

lemma finditer_from_qa_marker:
  "CHR '':'' \<notin> set s \<Longrightarrow> finditer_from qa_marker prev pos skip s = []"
proof (induction s arbitrary: prev pos skip)
  case Nil
  then show ?case by simp
next
  case (Cons c cs)
  then have "qa_marker prev (c # cs) = None"
    by (cases cs) (auto simp add: qa_marker_def)
  then show ?case using Cons by simp
qed

lemma finditer_from_sentence_endings:
  "\<forall>c\<in>set s. \<not> is_terminator c \<Longrightarrow> finditer_from sentence_endings prev pos skip s = []"
  by (induction s arbitrary: prev pos skip) (auto simp add: sentence_endings_def)

subsection \<open>The greeting document, step by step\<close>

lemma greeting_chars:
  "set (''Hi there. x'' @ spaced_words n) \<subseteq> set ''Hi there. x''"
  using set_spaced_words[of n] by auto

lemma str_strip_greeting:
  "str_strip (''Hi there. x'' @ spaced_words n) = ''Hi there. x'' @ spaced_words n"
proof (rule str_strip_id)
  show "''Hi there. x'' @ spaced_words n \<noteq> []" by simp
  show "\<not> isspace (hd (''Hi there. x'' @ spaced_words n))" by (simp add: isspace_def)
  show "\<not> isspace (last (''Hi there. x'' @ spaced_words n))"
    unfolding last_spaced_words by (simp add: isspace_def)
qed

lemma str_strip_sentence: "str_strip (''x'' @ spaced_words n) = ''x'' @ spaced_words n"
proof (rule str_strip_id)
  show "''x'' @ spaced_words n \<noteq> []" by simp
  show "\<not> isspace (hd (''x'' @ spaced_words n))" by (simp add: isspace_def)
  show "\<not> isspace (last (''x'' @ spaced_words n))"
    unfolding last_spaced_words by (simp add: isspace_def)
qed

lemma str_strip_hi_there: "str_strip ''Hi there'' = ''Hi there''"
  by (simp add: str_strip_def isspace_def)

lemma clean_text_greeting:
  "clean_text (''Hi there. x'' @ spaced_words n) = ''Hi there. x'' @ spaced_words n"
proof -
  have 1: "sub_whitespace False (''Hi there. x'' @ s) = ''Hi there. x'' @ sub_whitespace False s"
    for s by (simp add: isspace_def)
  have 2: "sub_line_breaks False (''Hi there. x'' @ spaced_words n) =
             ''Hi there. x'' @ spaced_words n"
    using greeting_chars[of n] by (intro sub_line_breaks_id) auto
  have 3: "sub_runs (CHR ''.'') 0 (''Hi there. x'' @ s) = ''Hi there. x'' @ sub_runs (CHR ''.'') 0 s"
    for s by simp
  have 4: "sub_runs (CHR ''.'') 0 (spaced_words n) = spaced_words n"
    using set_spaced_words[of n] by (intro sub_runs_id) auto
  have 5: "sub_runs (CHR ''-'') 0 (''Hi there. x'' @ spaced_words n) =
             ''Hi there. x'' @ spaced_words n"
    using greeting_chars[of n] by (intro sub_runs_id) auto
  show ?thesis
    unfolding clean_text_def Let_def 1 sub_whitespace_spaced_words 2 3 4 5 sub_quotes_id
    by (rule str_strip_greeting)
qed

lemma determine_strategy_greeting:
  "determine_strategy (''Hi there. x'' @ spaced_words n) = ''semantic''"
proof -
  have nl: "CHR 0x0A \<notin> set (''Hi there. x'' @ spaced_words n)"
    using greeting_chars[of n] by auto
  have colon: "CHR '':'' \<notin> set (''Hi there. x'' @ spaced_words n)"
    using greeting_chars[of n] by auto
  have qa: "findall_count qa_marker (''Hi there. x'' @ spaced_words n) = 0"
    unfolding findall_count_def finditer_def finditer_from_qa_marker[OF colon] by simp
  have dl: "findall_count dialogue_marker (''Hi there. x'' @ spaced_words n) \<le> 1"
    using dialogue_marker_anchored nl by (rule findall_count_anchored)
  have hd: "findall_count header_pattern (''Hi there. x'' @ spaced_words n) \<le> 1"
    using header_pattern_anchored nl by (rule findall_count_anchored)
  have ls: "findall_count list_pattern (''Hi there. x'' @ spaced_words n) \<le> 1"
    using list_pattern_anchored nl by (rule findall_count_anchored)
  show ?thesis
    unfolding determine_strategy_def Let_def qa using dl hd ls by simp
qed

lemma split_sentences_greeting:
  "split_sentences (''Hi there. x'' @ spaced_words n) = [''Hi there'', ''x'' @ spaced_words n]"
proof -
  have 2: "finditer_from sentence_endings p pos k (spaced_words n) = []" for p pos k
    using set_spaced_words[of n]
    by (intro finditer_from_sentence_endings) (auto simp add: is_terminator_def)
  have 1: "finditer_from sentence_endings None 0 0 (''Hi there. x'' @ spaced_words n) = [(8, 2)]"
    by (simp add: sentence_endings_def is_terminator_def isspace_def 2)
  have 3: "re_split sentence_endings (''Hi there. x'' @ spaced_words n) =
             [''Hi there'', ''x'' @ spaced_words n]"
    unfolding re_split_def finditer_def 1 by simp
  have 4: "str_strip (CHR ''x'' # spaced_words n) = CHR ''x'' # spaced_words n"
    using str_strip_sentence[of n] by simp
  show ?thesis
    unfolding split_sentences_def 3 by (simp add: str_strip_hi_there 4)
qed

lemma str_split_sentence: "str_split (''x'' @ spaced_words n) = replicate (Suc n) ''x''"
  unfolding str_split_def using split_from_spaced_words[of n] by (simp add: isspace_def)

lemma str_split_overlap:
  "str_split (''Hi there'' @ '' '' @ ''x'' @ spaced_words n) =
     ''Hi'' # ''there'' # replicate (Suc n) ''x''"
  unfolding str_split_def using split_from_spaced_words[of n] by (simp add: isspace_def)

lemma count_tokens_hi_there: "count_tokens word_count_processor ''Hi there'' = 13 / 5"
  by (simp add: count_tokens_def word_count_processor_def str_split_def isspace_def)

lemma count_tokens_sentence:
  "count_tokens word_count_processor (''x'' @ spaced_words 383) = 2496 / 5"
  unfolding count_tokens_def str_split_sentence
  by (simp add: word_count_processor_def)

lemma count_tokens_overlap:
  "count_tokens word_count_processor (''Hi there'' @ '' '' @ ''x'' @ spaced_words 383) = 2509 / 5"
  unfolding count_tokens_def str_split_overlap
  by (simp add: word_count_processor_def)

lemma max_chunk_tokens_word_count: "real_of_int (max_chunk_tokens word_count_processor) = 500"
  by (simp add: word_count_processor_def)

lemma min_chunk_tokens_word_count: "real_of_int (min_chunk_tokens word_count_processor) = 50"
  by (simp add: word_count_processor_def)

lemma chunk_by_sentences_greeting:
  "chunk_by_sentences word_count_processor (''Hi there. x'' @ spaced_words 383) =
     [''Hi there'', ''Hi there'' @ '' '' @ ''x'' @ spaced_words 383]"
proof -
  have j: "str_join '' '' [''Hi there'', ''x'' @ spaced_words 383] =
             ''Hi there'' @ '' '' @ ''x'' @ spaced_words 383"
    by simp
  have j1: "str_join '' '' [''Hi there''] = ''Hi there''"
    by simp
  have "sentences_loop word_count_processor [''Hi there'', ''x'' @ spaced_words 383] [] [] 0 =
          [''Hi there'', ''Hi there'' @ '' '' @ ''x'' @ spaced_words 383]"
    unfolding sentences_loop.simps Let_def count_tokens_hi_there count_tokens_sentence
      max_chunk_tokens_word_count
    apply (simp only: append_Nil list.size j j1)
    apply simp
    done
  then show ?thesis
    unfolding chunk_by_sentences_def split_sentences_greeting .
qed

lemma raw_chunks_greeting:
  "smart_chunk_document word_count_processor greeting_document md =
     process_chunks word_count_processor md 0
       [Plain ''Hi there'', Plain (''Hi there'' @ '' '' @ ''x'' @ spaced_words 383)]"
proof -
  have ne: "greeting_document \<noteq> []" "str_strip greeting_document \<noteq> []"
    unfolding greeting_document_def str_strip_greeting by simp_all
  show ?thesis
    unfolding smart_chunk_document_def Let_def
    using ne
    by (simp add: greeting_document_def clean_text_greeting determine_strategy_greeting
        chunk_by_sentences_greeting del: append.simps)
qed

lemma greeting_indices:
  "map chunk_index (smart_chunk_document word_count_processor greeting_document md) = [1]"
  unfolding raw_chunks_greeting process_chunks.simps Let_def raw_chunk.case
    count_tokens_hi_there count_tokens_overlap min_chunk_tokens_word_count
  by simp

lemma greeting_token_counts:
  "map token_count (smart_chunk_document word_count_processor greeting_document md) = [2509 / 5]"
  unfolding raw_chunks_greeting process_chunks.simps Let_def raw_chunk.case
    count_tokens_hi_there count_tokens_overlap min_chunk_tokens_word_count
  by simp

lemma greeting_texts:
  "map text (smart_chunk_document word_count_processor greeting_document md) =
     [''Hi there x'' @ spaced_words 383]"
proof -
  have "str_strip (''Hi there x'' @ spaced_words 383) = ''Hi there x'' @ spaced_words 383"
  proof (rule str_strip_id)
    show "''Hi there x'' @ spaced_words 383 \<noteq> []" by simp
    show "\<not> isspace (hd (''Hi there x'' @ spaced_words 383))" by (simp add: isspace_def)
    show "\<not> isspace (last (''Hi there x'' @ spaced_words 383))"
      unfolding last_spaced_words by (simp add: isspace_def)
  qed
  then have s: "str_strip (''Hi there'' @ '' '' @ ''x'' @ spaced_words 383) =
      ''Hi there x'' @ spaced_words 383"
    by simp
  show ?thesis
    unfolding raw_chunks_greeting process_chunks.simps Let_def raw_chunk.case
      count_tokens_hi_there count_tokens_overlap min_chunk_tokens_word_count s
    by simp
qed

lemma greeting_sentences:
  "map (count_tokens word_count_processor) (split_sentences (clean_text greeting_document)) =
     [13 / 5, 2496 / 5]"
  unfolding greeting_document_def clean_text_greeting split_sentences_greeting
  by (simp only: list.map count_tokens_hi_there count_tokens_sentence)

text \<open>
  C4. Every chunk that is not a single unsplittable unit is claimed to stay within
  \<open>max_chunk_tokens\<close>, the overlap included. The source checks the limit before it appends a
  sentence, but not when it seeds the next chunk with the overlap: for the text
  \<open>Hi there. x x ... x\<close> the two sentences count 2.6 and 499.2 tokens, each below the limit
  of 500, and the chunk built from the overlap \<open>Hi there\<close> and the second sentence counts
  501.8 tokens.
\<close>

theorem overlap_chunk_over_budget:
  "map (count_tokens word_count_processor) (split_sentences (clean_text greeting_document)) =
     [13 / 5, 2496 / 5] \<and>
   map text (smart_chunk_document word_count_processor greeting_document None) =
     [''Hi there x'' @ spaced_words 383] \<and>
   map token_count (smart_chunk_document word_count_processor greeting_document None) =
     [2509 / 5] \<and>
   real_of_int (max_chunk_tokens word_count_processor) = 500"
  using greeting_sentences greeting_texts[of None] greeting_token_counts[of None]
    max_chunk_tokens_word_count by simp

subsection \<open>The ordinals of the raw chunks\<close>

lemma filter_upt_Suc:
  "filter P [0..<Suc n] = (if P 0 then [0] else []) @ map Suc (filter (P \<circ> Suc) [0..<n])"
proof -
  have "[0..<Suc n] = 0 # map Suc [0..<n]"
    by (simp add: upt_conv_Cons map_Suc_upt del: upt_Suc)
  then show ?thesis
    by (simp add: filter_map del: upt_Suc)
qed

text \<open>
  The loop gives every chunk it keeps the ordinal of its raw chunk, counted from \<open>i\<close>: a raw
  chunk below \<open>min_chunk_tokens\<close> yields no chunk, and its ordinal is not given to the next.
\<close>

lemma process_chunks_ordinals:
  "map chunk_index (process_chunks self md i raws) =
     map (\<lambda>j. i + j)
       (filter (\<lambda>j. \<not> count_tokens self (raw_text (raws ! j)) < real_of_int (min_chunk_tokens self))
          [0..<length raws])"
proof (induction raws arbitrary: i)
  case Nil
  then show ?case by simp
next
  case (Cons r raws)
  define P where "P = (\<lambda>j. \<not> count_tokens self (raw_text ((r # raws) ! j))
                              < real_of_int (min_chunk_tokens self))"
  define P' where "P' = (\<lambda>j. \<not> count_tokens self (raw_text (raws ! j))
                               < real_of_int (min_chunk_tokens self))"
  have t: "(case r of Dict t m s e \<Rightarrow> t | Plain t \<Rightarrow> t) = raw_text r"
    by (simp add: raw_text_def)
  have c: "P \<circ> Suc = P'"
    unfolding P_def P'_def by (rule ext) simp
  have p0: "P 0 \<longleftrightarrow> \<not> count_tokens self (raw_text r) < real_of_int (min_chunk_tokens self)"
    unfolding P_def by simp
  have IH: "map chunk_index (process_chunks self md (Suc i) raws) =
      map (\<lambda>j. Suc i + j) (filter P' [0..<length raws])"
    unfolding P'_def by (rule Cons.IH)
  have "map chunk_index (process_chunks self md i (r # raws)) =
      (if P 0 then [i] else []) @ map (\<lambda>j. Suc i + j) (filter P' [0..<length raws])"
    unfolding p0 by (simp add: Let_def t IH del: upt_Suc)
  also have "\<dots> = map (\<lambda>j. i + j) (filter P [0..<Suc (length raws)])"
    unfolding filter_upt_Suc c by (simp add: comp_def del: upt_Suc)
  finally show ?case
    unfolding P_def by simp
qed

lemma smart_chunk_document_raw:
  assumes "str_strip t \<noteq> []"
  shows "smart_chunk_document self t md = process_chunks self md 0 (raw_chunks self t)"
proof -
  have "t \<noteq> []"
    using assms by (auto simp add: str_strip_def)
  then show ?thesis
    using assms by (simp add: smart_chunk_document_def raw_chunks_def Let_def)
qed

subsection \<open>Splitting at one match\<close>

lemma finditer_from_prefix:
  assumes "\<And>p c t. c \<in> set a \<Longrightarrow> m p (c # t) = None"
  shows "finditer_from m prev pos 0 (a @ r) =
     finditer_from m (if a = [] then prev else Some (last a)) (pos + length a) 0 r"
  using assms by (induction a arbitrary: prev pos) simp_all

lemma finditer_from_skip:
  "finditer_from m prev pos (length s) (s @ r) =
     finditer_from m (if s = [] then prev else Some (last s)) (pos + length s) 0 r"
  by (induction s arbitrary: prev pos) simp_all

lemma finditer_from_none:
  assumes "\<And>p c t. c \<in> set s \<Longrightarrow> m p (c # t) = None"
  shows "finditer_from m prev pos 0 s = []"
  using finditer_from_prefix[of s m prev pos "[]", OF assms] by simp

lemma re_split_none:
  assumes "\<And>p c t. c \<in> set s \<Longrightarrow> m p (c # t) = None"
  shows "re_split m s = [s]"
proof -
  have "finditer_from m None 0 0 s = []"
    by (rule finditer_from_none) (rule assms)
  then show ?thesis
    by (simp add: re_split_def finditer_def)
qed

lemma re_split_once:
  assumes a: "\<And>p c t. c \<in> set a \<Longrightarrow> m p (c # t) = None"
    and sep: "sep \<noteq> []" "m (if a = [] then None else Some (last a)) (sep @ b) = Some (length sep)"
    and b: "\<And>p c t. c \<in> set b \<Longrightarrow> m p (c # t) = None"
  shows "re_split m (a @ sep @ b) = [a, b]"
proof -
  obtain c sep' where c: "sep = c # sep'"
    using sep(1) by (cases sep) auto
  have "finditer m (a @ sep @ b) =
      finditer_from m (if a = [] then None else Some (last a)) (length a) 0 (sep @ b)"
    unfolding finditer_def using finditer_from_prefix[of a m None 0 "sep @ b", OF a] by simp
  also have "\<dots> = (length a, length sep) #
      finditer_from m (Some c) (Suc (length a)) (length sep') (sep' @ b)"
    using sep(2) unfolding c by simp
  also have "finditer_from m (Some c) (Suc (length a)) (length sep') (sep' @ b) = []"
    unfolding finditer_from_skip by (rule finditer_from_none) (rule b)
  finally have "finditer m (a @ sep @ b) = [(length a, length sep)]" .
  then show ?thesis
    by (simp add: re_split_def)
qed

lemma sentence_endings_None: "\<not> is_terminator c \<Longrightarrow> sentence_endings p (c # t) = None"
  by (simp add: sentence_endings_def)

lemma clause_separator_None: "c \<notin> set '',;'' \<Longrightarrow> clause_separator p (c # t) = None"
  by (simp add: clause_separator_def)

lemma split_from_spaced_append:
  "split_from ''x'' (spaced_words n @ r) = replicate n ''x'' @ split_from ''x'' r"
  by (induction n) (simp_all add: spaced_words_Suc spaced_words_0 isspace_def)

lemma sub_whitespace_spaced_append:
  "sub_whitespace False (spaced_words n @ r) = spaced_words n @ sub_whitespace False r"
  by (induction n) (simp_all add: spaced_words_Suc spaced_words_0 isspace_def)

lemma sub_runs_prefix: "x \<notin> set a \<Longrightarrow> a \<noteq> [] \<Longrightarrow> sub_runs x n (a @ r) = a @ sub_runs x 0 r"
proof (induction a arbitrary: n)
  case Nil
  then show ?case by simp
next
  case (Cons c a)
  then show ?case by (cases "a = []") auto
qed

text \<open>A text with neither a newline nor a colon is chunked by sentences.\<close>

lemma determine_strategy_plain:
  assumes nl: "CHR 0x0A \<notin> set s" and colon: "CHR '':'' \<notin> set s"
  shows "determine_strategy s = ''semantic''"
proof -
  have qa: "findall_count qa_marker s = 0"
    unfolding findall_count_def finditer_def finditer_from_qa_marker[OF colon] by simp
  have dl: "findall_count dialogue_marker s \<le> 1"
    using dialogue_marker_anchored nl by (rule findall_count_anchored)
  have hd: "findall_count header_pattern s \<le> 1"
    using header_pattern_anchored nl by (rule findall_count_anchored)
  have ls: "findall_count list_pattern s \<le> 1"
    using list_pattern_anchored nl by (rule findall_count_anchored)
  show ?thesis
    unfolding determine_strategy_def Let_def qa using dl hd ls by simp
qed

subsection \<open>The gap document, step by step\<close>

lemma gap_chars: "set gap_document \<subseteq> set ''x, hi there.''"
  unfolding gap_document_def using set_spaced_words[of 399] by auto

lemma gap_shape:
  "gap_document = ((''x'' @ spaced_words 399) @ '', hi there'') @ ''. '' @ (''x'' @ spaced_words 399)"
  by (simp add: gap_document_def)

lemma str_strip_gap: "str_strip gap_document = gap_document"
proof (rule str_strip_id)
  show "gap_document \<noteq> []"
    by (simp add: gap_document_def)
  show "\<not> isspace (hd gap_document)"
    by (simp add: gap_document_def isspace_def)
  have "last gap_document = last ((''x'' @ spaced_words 399 @ '', hi there. x'') @ spaced_words 399)"
    by (simp add: gap_document_def)
  also have "\<dots> = CHR ''x''"
    unfolding last_spaced_words by simp
  finally show "\<not> isspace (last gap_document)"
    by (simp add: isspace_def)
qed

lemma clean_text_gap: "clean_text gap_document = gap_document"
proof -
  have 1: "sub_whitespace False gap_document = gap_document"
    by (simp add: gap_document_def isspace_def sub_whitespace_spaced_append
        sub_whitespace_spaced_words)
  have 2: "sub_line_breaks False gap_document = gap_document"
    using gap_chars by (intro sub_line_breaks_id) auto
  have "sub_runs (CHR ''.'') 0 ((''x'' @ spaced_words 399) @ '', hi there. x'' @ spaced_words 399) =
      (''x'' @ spaced_words 399) @ sub_runs (CHR ''.'') 0 ('', hi there. x'' @ spaced_words 399)"
    using set_spaced_words[of 399] by (intro sub_runs_prefix) auto
  moreover have "sub_runs (CHR ''.'') 0 (spaced_words 399) = spaced_words 399"
    using set_spaced_words[of 399] by (intro sub_runs_id) auto
  ultimately have 3: "sub_runs (CHR ''.'') 0 gap_document = gap_document"
    by (simp add: gap_document_def)
  have 4: "sub_runs (CHR ''-'') 0 gap_document = gap_document"
    using gap_chars by (intro sub_runs_id) auto
  show ?thesis
    unfolding clean_text_def Let_def 1 2 3 4 sub_quotes_id by (rule str_strip_gap)
qed

lemma determine_strategy_gap: "determine_strategy gap_document = ''semantic''"
  using gap_chars by (intro determine_strategy_plain) auto

lemma str_strip_clause:
  "str_strip ((''x'' @ spaced_words 399) @ '', hi there'') = (''x'' @ spaced_words 399) @ '', hi there''"
  by (rule str_strip_id) (simp_all add: isspace_def)

lemma split_sentences_gap:
  "split_sentences gap_document =
     [(''x'' @ spaced_words 399) @ '', hi there'', ''x'' @ spaced_words 399]"
proof -
  define A where "A = (''x'' @ spaced_words 399) @ '', hi there''"
  define B where "B = ''x'' @ spaced_words 399"
  have g: "gap_document = A @ ''. '' @ B"
    by (simp add: A_def B_def gap_document_def)
  have a: "sentence_endings p (c # t) = None" if "c \<in> set A" for p c t
    using that set_spaced_words[of 399] unfolding A_def
    by (intro sentence_endings_None) (auto simp add: is_terminator_def)
  have b: "sentence_endings p (c # t) = None" if "c \<in> set B" for p c t
    using that set_spaced_words[of 399] unfolding B_def
    by (intro sentence_endings_None) (auto simp add: is_terminator_def)
  have m: "sentence_endings (if A = [] then None else Some (last A)) (''. '' @ B)
      = Some (length ''. '')"
    by (simp add: B_def sentence_endings_def is_terminator_def isspace_def)
  have r: "re_split sentence_endings (A @ ''. '' @ B) = [A, B]"
  proof (rule re_split_once)
    show "\<And>p c t. c \<in> set A \<Longrightarrow> sentence_endings p (c # t) = None"
      by (rule a)
    show "''. '' \<noteq> []"
      by simp
    show "sentence_endings (if A = [] then None else Some (last A)) (''. '' @ B)
        = Some (length ''. '')"
      by (rule m)
    show "\<And>p c t. c \<in> set B \<Longrightarrow> sentence_endings p (c # t) = None"
      by (rule b)
  qed
  have sa: "str_strip A = A"
    unfolding A_def by (rule str_strip_clause)
  have sb: "str_strip B = B"
    unfolding B_def by (rule str_strip_sentence)
  have ne: "A \<noteq> []" "B \<noteq> []"
    unfolding A_def B_def by simp_all
  have "split_sentences gap_document = [A, B]"
    unfolding split_sentences_def g r by (simp add: sa sb ne)
  then show ?thesis
    unfolding A_def B_def .
qed

lemma str_split_clause:
  "str_split ((''x'' @ spaced_words 399) @ '', hi there'') =
     replicate 399 ''x'' @ [''x,'', ''hi'', ''there'']"
proof -
  have "split_from ''x'' (spaced_words 399 @ '', hi there'') =
      replicate 399 ''x'' @ split_from ''x'' '', hi there''"
    by (rule split_from_spaced_append)
  then show ?thesis
    by (simp add: str_split_def isspace_def)
qed

lemma count_tokens_clause:
  "count_tokens word_count_processor ((''x'' @ spaced_words 399) @ '', hi there'') = 2613 / 5"
  unfolding count_tokens_def str_split_clause by (simp add: word_count_processor_def)

lemma count_tokens_words: "count_tokens word_count_processor (''x'' @ spaced_words 399) = 520"
  unfolding count_tokens_def str_split_sentence by (simp add: word_count_processor_def)

lemma count_tokens_aside: "count_tokens word_count_processor '' hi there'' = 13 / 5"
  by (simp add: count_tokens_def word_count_processor_def str_split_def isspace_def)

lemma count_tokens_aside_stripped: "count_tokens word_count_processor ''hi there'' = 13 / 5"
  by (simp add: count_tokens_def word_count_processor_def str_split_def isspace_def)

lemma str_strip_aside: "str_strip '' hi there'' = ''hi there''"
  by (simp add: str_strip_def isspace_def)

lemma re_split_clause:
  "re_split clause_separator ((''x'' @ spaced_words 399) @ '', hi there'') =
     [''x'' @ spaced_words 399, '' hi there'']"
proof -
  define A where "A = ''x'' @ spaced_words 399"
  have a: "clause_separator p (c # t) = None" if "c \<in> set A" for p c t
    using that set_spaced_words[of 399] unfolding A_def by (intro clause_separator_None) auto
  have b: "clause_separator p (c # t) = None" if "c \<in> set '' hi there''" for p c t
    using that by (intro clause_separator_None) auto
  have m: "clause_separator (if A = [] then None else Some (last A)) ('','' @ '' hi there'')
      = Some (length '','')"
    by (simp add: clause_separator_def)
  have "re_split clause_separator (A @ '','' @ '' hi there'') = [A, '' hi there'']"
  proof (rule re_split_once)
    show "\<And>p c t. c \<in> set A \<Longrightarrow> clause_separator p (c # t) = None"
      by (rule a)
    show "'','' \<noteq> []"
      by simp
    show "clause_separator (if A = [] then None else Some (last A)) ('','' @ '' hi there'')
        = Some (length '','')"
      by (rule m)
    show "\<And>p c t. c \<in> set '' hi there'' \<Longrightarrow> clause_separator p (c # t) = None"
      by (rule b)
  qed
  moreover have "A @ '','' @ '' hi there'' = A @ '', hi there''"
    by simp
  ultimately show ?thesis
    unfolding A_def by simp
qed

lemma re_split_words:
  "re_split clause_separator (''x'' @ spaced_words 399) = [''x'' @ spaced_words 399]"
proof (rule re_split_none)
  fix p c t
  assume "c \<in> set (''x'' @ spaced_words 399)"
  then show "clause_separator p (c # t) = None"
    using set_spaced_words[of 399] by (intro clause_separator_None) auto
qed

text \<open>
  Both sentences are over the limit. The first is cut at its comma: its 400 words are one
  raw chunk, and the clause \<open>hi there\<close> is left over and becomes a raw chunk of its own when
  the second sentence arrives.
\<close>

lemma chunk_by_sentences_gap:
  "chunk_by_sentences word_count_processor gap_document =
     [''x'' @ spaced_words 399, ''hi there'', ''x'' @ spaced_words 399]"
proof -
  define X where "X = ''x'' @ spaced_words 399"
  define S where "S = X @ '', hi there''"
  have facts:
    "count_tokens word_count_processor S = 2613 / 5"
    "count_tokens word_count_processor X = 520"
    "re_split clause_separator S = [X, '' hi there'']"
    "re_split clause_separator X = [X]"
    "str_strip X = X"
    unfolding S_def X_def
    by (rule count_tokens_clause count_tokens_words re_split_clause re_split_words
        str_strip_sentence)+
  have "X \<noteq> []"
    unfolding X_def by simp
  then have "sentences_loop word_count_processor [S, X] [] [] 0 = [X, ''hi there'', X]"
    by (simp add: facts count_tokens_aside str_strip_aside max_chunk_tokens_word_count)
  then show ?thesis
    unfolding chunk_by_sentences_def split_sentences_gap S_def X_def .
qed

lemma raw_chunks_gap:
  "raw_chunks word_count_processor gap_document =
     [Plain (''x'' @ spaced_words 399), Plain ''hi there'', Plain (''x'' @ spaced_words 399)]"
  unfolding raw_chunks_def Let_def clean_text_gap determine_strategy_gap chunk_by_sentences_gap
  by simp

lemma gap_indices:
  "map chunk_index (smart_chunk_document word_count_processor gap_document md) = [0, 2]"
proof -
  define X where "X = ''x'' @ spaced_words 399"
  have x: "count_tokens word_count_processor X = 520"
    unfolding X_def by (rule count_tokens_words)
  have "str_strip gap_document \<noteq> []"
    unfolding str_strip_gap by (simp add: gap_document_def)
  then have "smart_chunk_document word_count_processor gap_document md =
      process_chunks word_count_processor md 0 [Plain X, Plain ''hi there'', Plain X]"
    unfolding X_def raw_chunks_gap[symmetric] by (rule smart_chunk_document_raw)
  then show ?thesis
    by (simp add: x count_tokens_aside_stripped min_chunk_tokens_word_count)
qed

text \<open>
  C10. The chunk indices of every list returned by \<open>smart_chunk_document\<close> are strictly
  increasing. For a text that is not blank they are exactly the ordinals of the raw chunks
  that reach \<open>min_chunk_tokens\<close>: a raw chunk below it is dropped and its ordinal is given
  to no other chunk. So the indices need not be contiguous: the text
  \<open>x x ... x, hi there. x x ... x\<close> has the raw chunks \<open>x ... x\<close>, \<open>hi there\<close> and \<open>x ... x\<close>,
  the second is dropped, and the two chunks returned have the indices 0 and 2.
\<close>

theorem chunk_index_increasing:
  "sorted_wrt (<) (map chunk_index (smart_chunk_document self t md)) \<and>
   (str_strip t \<noteq> [] \<longrightarrow>
      map chunk_index (smart_chunk_document self t md) =
        filter (\<lambda>j. \<not> count_tokens self (raw_text (raw_chunks self t ! j))
                       < real_of_int (min_chunk_tokens self))
          [0..<length (raw_chunks self t)]) \<and>
   map raw_text (raw_chunks word_count_processor gap_document) =
     [''x'' @ spaced_words 399, ''hi there'', ''x'' @ spaced_words 399] \<and>
   map chunk_index (smart_chunk_document word_count_processor gap_document None) = [0, 2]"
proof -
  have "map chunk_index (smart_chunk_document self t md) =
        filter (\<lambda>j. \<not> count_tokens self (raw_text (raw_chunks self t ! j))
                       < real_of_int (min_chunk_tokens self))
          [0..<length (raw_chunks self t)]" if "str_strip t \<noteq> []"
    unfolding smart_chunk_document_raw[OF that] process_chunks_ordinals by (rule map_idI) simp
  moreover have "map raw_text (raw_chunks word_count_processor gap_document) =
     [''x'' @ spaced_words 399, ''hi there'', ''x'' @ spaced_words 399]"
    unfolding raw_chunks_gap by (simp add: raw_text_def)
  ultimately show ?thesis
    using smart_chunk_document_sorted[of self t md] gap_indices[of None] by blast
qed

theorem chunk_index_increasing_witness:
  "str_strip gap_document \<noteq> [] \<and>
   filter (\<lambda>j. \<not> count_tokens word_count_processor
                    (raw_text (raw_chunks word_count_processor gap_document ! j))
                  < real_of_int (min_chunk_tokens word_count_processor))
     [0..<length (raw_chunks word_count_processor gap_document)] = [0, 2]"
proof -
  have ne: "str_strip gap_document \<noteq> []"
    unfolding str_strip_gap by (simp add: gap_document_def)
  with chunk_index_increasing[of word_count_processor gap_document None] show ?thesis
    by metis
qed

end
